theory Spec2Isabelle
  imports Main "HOL-Library.Word"
begin

section \<open>Values of the Python program\<close>

text \<open>
  A Python \<open>str\<close> is a sequence of Unicode code points, a \<open>bytes\<close> object a
  sequence of octets and an \<open>int\<close> is unbounded.  Hex strings (the encoder
  assembles its output as text of hex digits) are kept as the octets they denote.
\<close>

type_synonym str = "nat list"
type_synonym byte = "8 word"
type_synonym bytes = "byte list"

definition ord :: "char \<Rightarrow> nat" where
  "ord c = of_char c"

definition lit :: "string \<Rightarrow> str" where
  "lit s = map ord s"

text \<open>Every exception that the modelled functions raise is a value.\<close>

datatype exception =
    IndexError
  | TypeError
  | AttributeError
  | StopIteration
  | OverflowError
  | AssertionError
  | UnicodeDecodeError
  | UnicodeEncodeError
  | MalformedBitcoinScript
  | AssetException str
  | Exception str

definition bind_exc :: "exception + 'a \<Rightarrow> ('a \<Rightarrow> exception + 'b) \<Rightarrow> exception + 'b" where
  "bind_exc m f = (case m of Inl e \<Rightarrow> Inl e | Inr x \<Rightarrow> f x)"

text \<open>
  Truth value of an optional \<open>str\<close> or \<open>bytes\<close> in a condition: \<open>None\<close> and the
  empty sequence are false.
\<close>

definition truthy :: "'a list option \<Rightarrow> bool" where
  "truthy e = (case e of None \<Rightarrow> False | Some s \<Rightarrow> s \<noteq> [])"

section \<open>Regular expressions as the module uses them\<close>

datatype rx = Bol | Eol | One "nat \<Rightarrow> bool" | AtLeast nat "nat \<Rightarrow> bool"

fun rmatch :: "rx list \<Rightarrow> nat \<Rightarrow> str \<Rightarrow> bool" where
  "rmatch [] pos s = True"
| "rmatch (Bol # r) pos s = (pos = 0 \<and> rmatch r pos s)"
| "rmatch (Eol # r) pos s = ((s = [] \<or> s = [10]) \<and> rmatch r pos s)"
| "rmatch (One c # r) pos s = (case s of [] \<Rightarrow> False | x # xs \<Rightarrow> c x \<and> rmatch r (Suc pos) xs)"
| "rmatch (AtLeast (Suc n) c # r) pos s =
     (case s of [] \<Rightarrow> False | x # xs \<Rightarrow> c x \<and> rmatch (AtLeast n c # r) (Suc pos) xs)"
| "rmatch (AtLeast 0 c # r) pos s =
     (rmatch r pos s \<or> (case s of [] \<Rightarrow> False | x # xs \<Rightarrow> c x \<and> rmatch (AtLeast 0 c # r) (Suc pos) xs))"

type_synonym regex = "rx list list"

definition re_match :: "regex \<Rightarrow> str \<Rightarrow> bool" where
  "re_match r s = list_ex (\<lambda>alt. rmatch alt 0 s) r"

definition chr_is :: "char \<Rightarrow> nat \<Rightarrow> bool" where
  "chr_is c x = (x = ord c)"

definition in_range :: "char \<Rightarrow> char \<Rightarrow> nat \<Rightarrow> bool" where
  "in_range a b x = (ord a \<le> x \<and> x \<le> ord b)"

definition one_of :: "string \<Rightarrow> nat \<Rightarrow> bool" where
  "one_of cs x = list_ex (\<lambda>c. x = ord c) cs"

definition name_class :: "nat \<Rightarrow> bool" where
  "name_class x = (in_range CHR ''A'' CHR ''Z'' x \<or> in_range CHR ''0'' CHR ''9'' x \<or> one_of ''._'' x)"

definition slice :: "'a list \<Rightarrow> nat \<Rightarrow> nat \<Rightarrow> 'a list" where
  "slice xs a b = take (b - a) (drop a xs)"

section \<open>Asset names (asset.py, lines 18-206)\<close>

definition MAX_NAME_LENGTH :: nat where "MAX_NAME_LENGTH = 32"
definition MAX_CHANNEL_NAME_LENGTH :: nat where "MAX_CHANNEL_NAME_LENGTH = 12"
definition MIN_ASSET_LENGTH :: nat where "MIN_ASSET_LENGTH = 3"
definition MAX_VERIFIER_STING_LENGTH :: nat where "MAX_VERIFIER_STING_LENGTH = 75"

definition DEFAULT_ASSET_AMOUNT_MAX :: int where "DEFAULT_ASSET_AMOUNT_MAX = 21000000000"

definition ASSET_OWNER_IDENTIFIER :: nat where "ASSET_OWNER_IDENTIFIER = ord CHR ''!''"

text \<open>
  The patterns.  \<open>re.match\<close> anchors at the start of the string; \<open>$\<close> holds at the
  end of the string and before a newline that ends it; \<open>.\<close> is any character but
  the newline; a negated class takes every other code point.
\<close>

definition dot :: "nat \<Rightarrow> bool" where
  "dot x = (x \<noteq> 10)"

definition none_of :: "string \<Rightarrow> nat \<Rightarrow> bool" where
  "none_of cs x = (\<not> one_of cs x)"

definition unique_tag_class :: "nat \<Rightarrow> bool" where
  "unique_tag_class x =
     (one_of ''-'' x \<or> in_range CHR ''A'' CHR ''Z'' x \<or> in_range CHR ''a'' CHR ''z'' x \<or>
      in_range CHR ''0'' CHR ''9'' x \<or> one_of ''@$%&*()[]{}_.?:'' x)"

definition msg_channel_tag_class :: "nat \<Rightarrow> bool" where
  "msg_channel_tag_class x =
     (in_range CHR ''A'' CHR ''Z'' x \<or> in_range CHR ''a'' CHR ''z'' x \<or>
      in_range CHR ''0'' CHR ''9'' x \<or> one_of ''_'' x)"

definition word :: "string \<Rightarrow> rx list" where
  "word w = map (\<lambda>c. One (chr_is c)) w"

definition ROOT_NAME_CHARACTERS :: regex where
  "ROOT_NAME_CHARACTERS = [[Bol, AtLeast 3 name_class, Eol]]"

definition SUB_NAME_CHARACTERS :: regex where
  "SUB_NAME_CHARACTERS = [[Bol, AtLeast 1 name_class, Eol]]"

definition UNIQUE_TAG_CHARACTERS :: regex where
  "UNIQUE_TAG_CHARACTERS = [[Bol, AtLeast 1 unique_tag_class, Eol]]"

definition MSG_CHANNEL_TAG_CHARACTERS :: regex where
  "MSG_CHANNEL_TAG_CHARACTERS = [[Bol, AtLeast 1 msg_channel_tag_class, Eol]]"

definition QUALIFIER_NAME_CHARACTERS :: regex where
  "QUALIFIER_NAME_CHARACTERS = [[One (chr_is CHR ''#''), AtLeast 3 name_class, Eol]]"

definition SUB_QUALIFIER_NAME_CHARACTERS :: regex where
  "SUB_QUALIFIER_NAME_CHARACTERS = [[One (chr_is CHR ''#''), AtLeast 1 name_class, Eol]]"

definition RESTRICTED_NAME_CHARACTERS :: regex where
  "RESTRICTED_NAME_CHARACTERS = [[One (chr_is CHR ''$''), AtLeast 3 name_class, Eol]]"

definition DOUBLE_PUNCTUATION :: regex where
  "DOUBLE_PUNCTUATION = [[Bol, AtLeast 0 dot, AtLeast 2 (one_of ''._''), AtLeast 0 dot, Eol]]"

definition LEADING_PUNCTUATION :: regex where
  "LEADING_PUNCTUATION = [[Bol, One (one_of ''._''), AtLeast 0 dot, Eol]]"

definition TRAILING_PUNCTUATION :: regex where
  "TRAILING_PUNCTUATION = [[Bol, AtLeast 0 dot, One (one_of ''._''), Eol]]"

definition QUALIFIER_LEADING_PUNCTUATION :: regex where
  "QUALIFIER_LEADING_PUNCTUATION = [[Bol, One (one_of ''#$''), One (one_of ''._''), AtLeast 0 dot, Eol]]"

definition SUB_NAME_DELIMITER :: nat where "SUB_NAME_DELIMITER = ord CHR ''/''"
definition UNIQUE_TAG_DELIMITER :: nat where "UNIQUE_TAG_DELIMITER = ord CHR ''#''"
definition MSG_CHANNEL_DELIMITER :: nat where "MSG_CHANNEL_DELIMITER = ord CHR ''~''"

definition UNIQUE_INDICATOR :: regex where
  "UNIQUE_INDICATOR =
     [[Bol, AtLeast 1 (none_of ''^~#!''), One (chr_is CHR ''#''), AtLeast 1 (none_of ''~#!/''), Eol]]"

definition MSG_CHANNEL_INDICATOR :: regex where
  "MSG_CHANNEL_INDICATOR =
     [[Bol, AtLeast 1 (none_of ''^~#!''), One (chr_is CHR ''~''), AtLeast 1 (none_of ''~#!/''), Eol]]"

definition OWNER_INDICATOR :: regex where
  "OWNER_INDICATOR = [[Bol, AtLeast 1 (none_of ''^~#!''), One (chr_is CHR ''!''), Eol]]"

definition QUALIFIER_INDICATOR :: regex where
  "QUALIFIER_INDICATOR = [[Bol, One (one_of ''#''), AtLeast 3 name_class, Eol]]"

definition SUB_QUALIFIER_INDICATOR :: regex where
  "SUB_QUALIFIER_INDICATOR =
     [[Bol, One (chr_is CHR ''#''), AtLeast 1 name_class, One (chr_is CHR ''/''),
       One (chr_is CHR ''#''), AtLeast 1 name_class, Eol]]"

definition RESTRICTED_INDICATOR :: regex where
  "RESTRICTED_INDICATOR = [[Bol, One (one_of ''$''), AtLeast 3 name_class, Eol]]"

definition BAD_NAMES :: regex where
  "BAD_NAMES =
     map (\<lambda>w. Bol # word w @ [Eol])
       [''RVN'', ''RAVEN'', ''RAVENCOIN'', ''RVNS'', ''RAVENS'', ''RAVENCOINS'',
        ''#RVN'', ''#RAVEN'', ''#RAVENCOIN'', ''#RVNS'', ''#RAVENS'', ''#RAVENCOINS'']"

definition isMatchAny :: "str \<Rightarrow> regex list \<Rightarrow> bool" where
  "isMatchAny symbol badMatches = list_ex (\<lambda>x. re_match x symbol) badMatches"

definition isRootNameValid :: "str \<Rightarrow> bool" where
  "isRootNameValid symbol =
     (re_match ROOT_NAME_CHARACTERS symbol \<and>
      \<not> isMatchAny symbol [DOUBLE_PUNCTUATION, LEADING_PUNCTUATION, TRAILING_PUNCTUATION, BAD_NAMES])"

definition isQualifierNameValid :: "str \<Rightarrow> bool" where
  "isQualifierNameValid symbol =
     (re_match QUALIFIER_NAME_CHARACTERS symbol \<and>
      \<not> isMatchAny symbol
          [DOUBLE_PUNCTUATION, QUALIFIER_LEADING_PUNCTUATION, TRAILING_PUNCTUATION, BAD_NAMES])"

definition isRestrictedNameValid :: "str \<Rightarrow> bool" where
  "isRestrictedNameValid symbol =
     (re_match RESTRICTED_NAME_CHARACTERS symbol \<and>
      \<not> isMatchAny symbol [DOUBLE_PUNCTUATION, LEADING_PUNCTUATION, TRAILING_PUNCTUATION, BAD_NAMES])"

definition isSubQualifierNameValid :: "str \<Rightarrow> bool" where
  "isSubQualifierNameValid symbol =
     (re_match SUB_QUALIFIER_NAME_CHARACTERS symbol \<and>
      \<not> isMatchAny symbol [DOUBLE_PUNCTUATION, LEADING_PUNCTUATION, TRAILING_PUNCTUATION])"

definition isSubNameValid :: "str \<Rightarrow> bool" where
  "isSubNameValid symbol =
     (re_match SUB_NAME_CHARACTERS symbol \<and>
      \<not> isMatchAny symbol [DOUBLE_PUNCTUATION, LEADING_PUNCTUATION, TRAILING_PUNCTUATION])"

definition isUniqueTagValid :: "str \<Rightarrow> bool" where
  "isUniqueTagValid symbol = re_match UNIQUE_TAG_CHARACTERS symbol"

definition isMsgChannelTagValid :: "str \<Rightarrow> bool" where
  "isMsgChannelTagValid symbol =
     (re_match MSG_CHANNEL_TAG_CHARACTERS symbol \<and>
      \<not> isMatchAny symbol [DOUBLE_PUNCTUATION, LEADING_PUNCTUATION, TRAILING_PUNCTUATION])"

text \<open>\<open>str.split(sep)\<close> for a separator of one character: never the empty list.\<close>

fun split :: "str \<Rightarrow> nat \<Rightarrow> str list" where
  "split [] sep = [[]]"
| "split (c # cs) sep =
     (if c = sep then [] # split cs sep
      else (case split cs sep of [] \<Rightarrow> [[c]] | part # parts \<Rightarrow> (c # part) # parts))"

definition isNameValidBeforeTag :: "str \<Rightarrow> bool" where
  "isNameValidBeforeTag symbol =
     (let parts = split symbol SUB_NAME_DELIMITER
      in isRootNameValid (hd parts) \<and> list_all isSubNameValid (tl parts))"

definition isQualifierNameValidBeforeTag :: "str \<Rightarrow> bool" where
  "isQualifierNameValidBeforeTag symbol =
     (let parts = split symbol SUB_NAME_DELIMITER
      in if \<not> isQualifierNameValid (hd parts) then False
         else if length parts > 2 then False
         else list_all isSubQualifierNameValid (tl parts))"

definition isAssetNameASubAsset :: "str \<Rightarrow> bool" where
  "isAssetNameASubAsset asset =
     (let parts = split asset SUB_NAME_DELIMITER
      in if \<not> isRootNameValid (hd parts) then False else length parts > 1)"

definition isAssetNameASubQualifier :: "str \<Rightarrow> bool" where
  "isAssetNameASubQualifier asset =
     (let parts = split asset SUB_NAME_DELIMITER
      in if \<not> isQualifierNameValid (hd parts) then False else length parts > 1)"

datatype AssetType =
    AssetType_ROOT | AssetType_SUB | AssetType_MSG_CHANNEL | AssetType_OWNER
  | AssetType_UNIQUE | AssetType_QUALIFIER | AssetType_SUB_QUALIFIER | AssetType_RESTRICTED

text \<open>
  The messages pass through the translation function \<open>_\<close>; the model keeps the
  English text.  The source's last branch (\<open>Unknown asset type.\<close>) is taken by no
  member of the enumeration.
\<close>

definition qualifier_checks :: "str \<Rightarrow> str option" where
  "qualifier_checks asset =
     (if length asset < 4 then Some (lit ''Name must contain at least 3 characters.'')
      else if \<not> isQualifierNameValidBeforeTag asset then
        Some (lit ''Qualifier name contains invalid characters (Valid characters are: A-Z 0-9 _ .) (# must be the first character, _ . special characters can't be the first or last characters)'')
      else None)"

definition get_error_for_asset_typed :: "str \<Rightarrow> AssetType \<Rightarrow> str option" where
  "get_error_for_asset_typed asset asset_type =
     (if asset_type = AssetType_SUB \<and> SUB_NAME_DELIMITER \<notin> set asset then
        Some (lit ''Not a sub asset.'')
      else if asset_type = AssetType_ROOT \<and> SUB_NAME_DELIMITER \<in> set asset then
        Some (lit ''Not a root asset.'')
      else if asset_type = AssetType_ROOT \<or> asset_type = AssetType_SUB then
        (if length asset > MAX_NAME_LENGTH - 1 then
           Some (lit ''Name is greater than max length of 31.'')
         else if \<not> isAssetNameASubAsset asset \<and> length asset < MIN_ASSET_LENGTH then
           Some (lit ''Name must contain at least 3 characters.'')
         else
           (let valid = isNameValidBeforeTag asset
            in if \<not> valid \<and> isAssetNameASubAsset asset \<and> length asset < MIN_ASSET_LENGTH then
                 Some (lit ''Name must have at least 3 characters (Valid characters are: A-Z 0-9 _ .)'')
               else if \<not> valid then
                 Some (lit ''Name contains invalid characters (Valid characters are: A-Z 0-9 _ .) (special characters can't be the first or last characters)'')
               else None))
      else
        (if length asset > MAX_NAME_LENGTH then
           Some (lit ''Name is greater than max length of 32.'')
         else
           (case asset_type of
              AssetType_UNIQUE \<Rightarrow>
                (let parts = split asset UNIQUE_TAG_DELIMITER
                 in if length parts = 1 then Some (lit ''Not a unique tag.'')
                    else if \<not> isNameValidBeforeTag (hd parts) \<or> \<not> isUniqueTagValid (last parts) then
                      Some (lit ''Unique name contains invalid characters (Valid characters are: A-Z a-z 0-9 @ $ % & * ( ) [ ] { } _ . ? : -)'')
                    else None)
            | AssetType_MSG_CHANNEL \<Rightarrow>
                (let parts = split asset MSG_CHANNEL_DELIMITER
                 in if length parts = 1 then Some (lit ''Not a message channel.'')
                    else if length (last parts) > MAX_CHANNEL_NAME_LENGTH then
                      Some (lit ''Channel name is greater than max length of 12.'')
                    else if \<not> isNameValidBeforeTag (hd parts) \<or> \<not> isMsgChannelTagValid (last parts) then
                      Some (lit ''Message Channel name contains invalid characters (Valid characters are: A-Z 0-9 _ .) (special characters can't be the first or last characters)'')
                    else None)
            | AssetType_OWNER \<Rightarrow>
                (if \<not> isNameValidBeforeTag (butlast asset) then
                   Some (lit ''Owner name contains invalid characters (Valid characters are: A-Z 0-9 _ .) (special characters can't be the first or last characters)'')
                 else None)
            | AssetType_QUALIFIER \<Rightarrow>
                (if SUB_NAME_DELIMITER \<in> set asset then Some (lit ''Not a qualifier'')
                 else qualifier_checks asset)
            | AssetType_SUB_QUALIFIER \<Rightarrow>
                (if SUB_NAME_DELIMITER \<notin> set asset then Some (lit ''Not a sub qualifier'')
                 else qualifier_checks asset)
            | AssetType_RESTRICTED \<Rightarrow>
                (if \<not> isRestrictedNameValid asset then
                   Some (lit ''Restricted name contains invalid characters (Valid characters are: A-Z 0-9 _ .) ($ must be the first character, _ . special characters can't be the first or last characters)'')
                 else None)
            | _ \<Rightarrow> Some (lit ''Unknown asset type.''))))"

definition get_error_for_asset_name :: "str \<Rightarrow> str option" where
  "get_error_for_asset_name asset =
     (if length asset > 40 then Some (lit ''Asset is too long'')
      else if re_match UNIQUE_INDICATOR asset then get_error_for_asset_typed asset AssetType_UNIQUE
      else if re_match MSG_CHANNEL_INDICATOR asset then get_error_for_asset_typed asset AssetType_MSG_CHANNEL
      else if re_match OWNER_INDICATOR asset then get_error_for_asset_typed asset AssetType_OWNER
      else if re_match QUALIFIER_INDICATOR asset then get_error_for_asset_typed asset AssetType_QUALIFIER
      else if re_match SUB_QUALIFIER_INDICATOR asset then get_error_for_asset_typed asset AssetType_SUB_QUALIFIER
      else if re_match RESTRICTED_INDICATOR asset then get_error_for_asset_typed asset AssetType_RESTRICTED
      else get_error_for_asset_typed asset
             (if isAssetNameASubAsset asset then AssetType_SUB else AssetType_ROOT))"

section \<open>Collaborators of the codec\<close>

text \<open>
  Modelled from the spec: \<open>bitcoin.py\<close>, \<open>transaction.py\<close> and \<open>util.py\<close> are not
  among the sources.  Section 6 of the spec names what the codec takes from them:
  little-endian integer helpers, the assembly of an opcode and operand list into
  script bytes with push-length prefixing, a script disassembler that yields
  (opcode, push data, offset) triples and signals malformed bytes, and a reader over a
  byte string.  The script language is Bitcoin's: an opcode up to \<open>OP_PUSHDATA4\<close>
  pushes data, \<open>OP_DROP\<close> is \<open>0x75\<close> (the decoder writes that byte out), and the
  asset marker is the opcode \<open>0xc0\<close>.  The base unit \<open>COIN\<close> is \<open>10^8\<close>.
\<close>

definition COIN :: int where "COIN = 100000000"

definition OP_PUSHDATA1 :: nat where "OP_PUSHDATA1 = 0x4c"
definition OP_PUSHDATA2 :: nat where "OP_PUSHDATA2 = 0x4d"
definition OP_PUSHDATA4 :: nat where "OP_PUSHDATA4 = 0x4e"
definition OP_RESERVED :: nat where "OP_RESERVED = 0x50"
definition OP_DROP :: nat where "OP_DROP = 0x75"
definition OP_ASSET :: nat where "OP_ASSET = 0xc0"

text \<open>The \<open>k\<close> low bytes of a number, least significant first.\<close>

fun le_bytes :: "int \<Rightarrow> nat \<Rightarrow> bytes" where
  "le_bytes n 0 = []"
| "le_bytes n (Suc k) = of_int (n mod 256) # le_bytes (n div 256) k"

text \<open>
  Modelled from the spec: \<open>int_to_hex(i, length)\<close>, the little-endian encoding of
  \<open>i\<close> on \<open>length\<close> bytes (two's complement below zero); a value that does not fit
  raises \<open>OverflowError\<close>.
\<close>

definition int_to_hex :: "int \<Rightarrow> nat \<Rightarrow> exception + bytes" where
  "int_to_hex i len =
     (let range_size = 256 ^ len
      in if i < - (range_size div 2) \<or> i \<ge> range_size then Inl OverflowError
         else Inr (le_bytes (if i < 0 then range_size + i else i) len))"

text \<open>\<open>int.from_bytes(b, 'little')\<close>.\<close>

fun int_from_bytes_little :: "bytes \<Rightarrow> int" where
  "int_from_bytes_little [] = 0"
| "int_from_bytes_little (b # bs) = uint b + 256 * int_from_bytes_little bs"

text \<open>\<open>str.encode()\<close>: UTF-8; a surrogate has no encoding.\<close>

definition encode_char :: "nat \<Rightarrow> exception + bytes" where
  "encode_char c =
     (if c < 0x80 then Inr [of_nat c]
      else if c < 0x800 then Inr [of_nat (0xC0 + c div 64), of_nat (0x80 + c mod 64)]
      else if c < 0x10000 then
        (if 0xD800 \<le> c \<and> c \<le> 0xDFFF then Inl UnicodeEncodeError
         else Inr [of_nat (0xE0 + c div 4096), of_nat (0x80 + c div 64 mod 64), of_nat (0x80 + c mod 64)])
      else if c < 0x110000 then
        Inr [of_nat (0xF0 + c div 262144), of_nat (0x80 + c div 4096 mod 64),
             of_nat (0x80 + c div 64 mod 64), of_nat (0x80 + c mod 64)]
      else Inl UnicodeEncodeError)"

fun str_encode :: "str \<Rightarrow> exception + bytes" where
  "str_encode [] = Inr []"
| "str_encode (c # cs) =
     bind_exc (encode_char c) (\<lambda>b. bind_exc (str_encode cs) (\<lambda>bs. Inr (b @ bs)))"

text \<open>Modelled from the spec: \<open>_op_push(i)\<close>, the push prefix for \<open>i\<close> bytes of data.\<close>

definition op_push :: "nat \<Rightarrow> exception + bytes" where
  "op_push i =
     (if i < OP_PUSHDATA1 then int_to_hex (int i) 1
      else if i \<le> 0xff then bind_exc (int_to_hex (int i) 1) (\<lambda>n. Inr (of_nat OP_PUSHDATA1 # n))
      else if i \<le> 0xffff then bind_exc (int_to_hex (int i) 2) (\<lambda>n. Inr (of_nat OP_PUSHDATA2 # n))
      else bind_exc (int_to_hex (int i) 4) (\<lambda>n. Inr (of_nat OP_PUSHDATA4 # n)))"

text \<open>
  Modelled from the spec: \<open>push_script(data)\<close>, the canonical push of \<open>data\<close>: the
  small-integer opcodes for an empty operand and for one byte that is 0 to 16 or
  \<open>0x81\<close>, the length prefix and the data otherwise.
\<close>

definition push_script :: "bytes \<Rightarrow> exception + bytes" where
  "push_script data =
     (if length data = 0 \<or> (length data = 1 \<and> hd data = 0) then Inr [0x00]
      else if length data = 1 \<and> unat (hd data) \<le> 16 then Inr [of_nat (0x51 - 1 + unat (hd data))]
      else if length data = 1 \<and> hd data = 0x81 then Inr [0x4f]
      else bind_exc (op_push (length data)) (\<lambda>p. Inr (p @ data)))"

text \<open>
  Modelled from the spec: \<open>construct_script(items)\<close>; an item is an opcode or the
  hex text of an operand to push.
\<close>

datatype script_item = Opcode nat | HexData bytes

fun construct_script :: "script_item list \<Rightarrow> exception + bytes" where
  "construct_script [] = Inr []"
| "construct_script (Opcode opc # items) =
     bind_exc (construct_script items) (\<lambda>rest. Inr (of_nat opc # rest))"
| "construct_script (HexData d # items) =
     bind_exc (push_script d) (\<lambda>p. bind_exc (construct_script items) (\<lambda>rest. Inr (p @ rest)))"

section \<open>Script encoder (asset.py, lines 208-307)\<close>

definition RVN_ASSET_PREFIX :: bytes where "RVN_ASSET_PREFIX = map (of_nat \<circ> ord) ''rvn''"
definition RVN_ASSET_TYPE_CREATE :: bytes where "RVN_ASSET_TYPE_CREATE = map (of_nat \<circ> ord) ''q''"
definition RVN_ASSET_TYPE_OWNER :: bytes where "RVN_ASSET_TYPE_OWNER = map (of_nat \<circ> ord) ''o''"
definition RVN_ASSET_TYPE_TRANSFER :: bytes where "RVN_ASSET_TYPE_TRANSFER = map (of_nat \<circ> ord) ''t''"
definition RVN_ASSET_TYPE_REISSUE :: bytes where "RVN_ASSET_TYPE_REISSUE = map (of_nat \<circ> ord) ''r''"

text \<open>
  \<open>address_to_script\<close> (of \<open>bitcoin.py\<close>) is a parameter \<open>ats\<close> of the functions
  that call it.  The fields of a payload are computed in the order the f-string
  evaluates them.
\<close>

definition flag_byte :: "bool \<Rightarrow> bytes" where
  "flag_byte b = (if b then [0x01] else [0x00])"

definition data_bytes :: "bytes option \<Rightarrow> bytes" where
  "data_bytes associated_data = (if truthy associated_data then the associated_data else [])"

definition generate_create_script ::
  "(str \<Rightarrow> exception + bytes) \<Rightarrow> str \<Rightarrow> str \<Rightarrow> int \<Rightarrow> int \<Rightarrow> bool \<Rightarrow> bytes option \<Rightarrow> exception + bytes" where
  "generate_create_script ats address asset amount divisions reissuable associated_data =
     (if truthy (get_error_for_asset_name asset) then Inl (AssetException (lit ''Bad asset''))
      else if \<not> amount > 0 \<or> amount > DEFAULT_ASSET_AMOUNT_MAX * COIN then
        Inl (AssetException (lit ''Bad amount''))
      else if divisions < 0 \<or> divisions > 8 then Inl (AssetException (lit ''Bad divisions''))
      else if truthy associated_data \<and> length (the associated_data) \<noteq> 34 then
        Inl (AssetException (lit ''Bad data''))
      else
        bind_exc (int_to_hex (int (length asset)) 1) (\<lambda>name_len.
        bind_exc (str_encode asset) (\<lambda>name.
        bind_exc (int_to_hex amount 8) (\<lambda>amount_bytes.
        bind_exc (int_to_hex divisions 1) (\<lambda>divisions_byte.
        bind_exc (construct_script
                    [Opcode OP_ASSET,
                     HexData (RVN_ASSET_PREFIX @ RVN_ASSET_TYPE_CREATE @ name_len @ name @ amount_bytes @
                              divisions_byte @ flag_byte reissuable @ flag_byte (truthy associated_data) @
                              data_bytes associated_data),
                     Opcode OP_DROP]) (\<lambda>asset_script.
        bind_exc (ats address) (\<lambda>base_script.
        Inr (base_script @ asset_script))))))))"

definition generate_reissue_script ::
  "(str \<Rightarrow> exception + bytes) \<Rightarrow> str \<Rightarrow> str \<Rightarrow> int \<Rightarrow> int \<Rightarrow> bool \<Rightarrow> bytes option \<Rightarrow> exception + bytes" where
  "generate_reissue_script ats address asset amount divisions reissuable associated_data =
     (if truthy (get_error_for_asset_name asset) then Inl (AssetException (lit ''Bad asset''))
      else if \<not> amount \<ge> 0 \<or> amount > DEFAULT_ASSET_AMOUNT_MAX * COIN then
        Inl (AssetException (lit ''Bad amount''))
      else if (divisions < 0 \<or> divisions > 8) \<and> divisions \<noteq> 0xff then
        Inl (AssetException (lit ''Bad divisions''))
      else if truthy associated_data \<and> length (the associated_data) \<noteq> 34 then
        Inl (AssetException (lit ''Bad data''))
      else
        bind_exc (int_to_hex (int (length asset)) 1) (\<lambda>name_len.
        bind_exc (str_encode asset) (\<lambda>name.
        bind_exc (int_to_hex amount 8) (\<lambda>amount_bytes.
        bind_exc (int_to_hex divisions 1) (\<lambda>divisions_byte.
        bind_exc (construct_script
                    [Opcode OP_ASSET,
                     HexData (RVN_ASSET_PREFIX @ RVN_ASSET_TYPE_REISSUE @ name_len @ name @ amount_bytes @
                              divisions_byte @ flag_byte reissuable @ data_bytes associated_data),
                     Opcode OP_DROP]) (\<lambda>asset_script.
        bind_exc (ats address) (\<lambda>base_script.
        Inr (base_script @ asset_script))))))))"

definition generate_owner_script_from_base :: "str \<Rightarrow> bytes \<Rightarrow> exception + bytes" where
  "generate_owner_script_from_base asset0 base_script =
     (if asset0 = [] then Inl IndexError
      else
        (let asset = (if last asset0 \<noteq> ASSET_OWNER_IDENTIFIER then asset0 @ [ASSET_OWNER_IDENTIFIER] else asset0);
             error = get_error_for_asset_name asset
         in if truthy error then
              Inl (AssetException (lit ''Bad asset: '' @ asset @ lit '' '' @ the error))
            else
              bind_exc (int_to_hex (int (length asset)) 1) (\<lambda>name_len.
              bind_exc (str_encode asset) (\<lambda>name.
              bind_exc (construct_script
                          [Opcode OP_ASSET,
                           HexData (RVN_ASSET_PREFIX @ RVN_ASSET_TYPE_OWNER @ name_len @ name),
                           Opcode OP_DROP]) (\<lambda>asset_script.
              Inr (base_script @ asset_script))))))"

definition generate_owner_script :: "(str \<Rightarrow> exception + bytes) \<Rightarrow> str \<Rightarrow> str \<Rightarrow> exception + bytes" where
  "generate_owner_script ats address asset =
     bind_exc (ats address) (\<lambda>base_script. generate_owner_script_from_base asset base_script)"

text \<open>
  \<open>AssetMemo\<close>: the converter of \<open>data\<close> turns an empty value into \<open>None\<close>; a
  timestamp that is \<open>None\<close> or 0 is left out of \<open>hex()\<close>.
\<close>

record AssetMemo =
  memo_data :: "bytes option"
  memo_timestamp :: "int option"

definition AssetMemo_hex :: "AssetMemo \<Rightarrow> exception + bytes" where
  "AssetMemo_hex memo =
     (case memo_data memo of
        None \<Rightarrow> Inl AttributeError
      | Some d \<Rightarrow>
          (case memo_timestamp memo of
             None \<Rightarrow> Inr d
           | Some t \<Rightarrow> if t = 0 then Inr d else bind_exc (int_to_hex t 8) (\<lambda>ts. Inr (d @ ts))))"

definition asset_portion_of_transfer_script :: "str \<Rightarrow> int \<Rightarrow> AssetMemo option \<Rightarrow> exception + bytes" where
  "asset_portion_of_transfer_script asset amount memo =
     bind_exc (int_to_hex (int (length asset)) 1) (\<lambda>name_len.
     bind_exc (str_encode asset) (\<lambda>name.
     bind_exc (int_to_hex amount 8) (\<lambda>amount_bytes.
     bind_exc (case memo of None \<Rightarrow> Inr [] | Some m \<Rightarrow> AssetMemo_hex m) (\<lambda>memo_bytes.
     construct_script
       [Opcode OP_ASSET,
        HexData (RVN_ASSET_PREFIX @ RVN_ASSET_TYPE_TRANSFER @ name_len @ name @ amount_bytes @ memo_bytes),
        Opcode OP_DROP]))))"

definition generate_transfer_script_from_base :: "str \<Rightarrow> int \<Rightarrow> bytes \<Rightarrow> exception + bytes" where
  "generate_transfer_script_from_base asset amount base_script =
     bind_exc (asset_portion_of_transfer_script asset amount None) (\<lambda>portion. Inr (base_script @ portion))"

definition generate_verifier_tag :: "str \<Rightarrow> exception + bytes" where
  "generate_verifier_tag verifier_string =
     (if \<not> length verifier_string \<le> MAX_VERIFIER_STING_LENGTH then Inl AssertionError
      else
        bind_exc (int_to_hex (int (length verifier_string)) 1) (\<lambda>n.
        bind_exc (str_encode verifier_string) (\<lambda>s.
        construct_script [Opcode OP_ASSET, Opcode OP_RESERVED, HexData (n @ s)])))"

definition generate_null_tag :: "str \<Rightarrow> bytes \<Rightarrow> bool \<Rightarrow> exception + bytes" where
  "generate_null_tag asset h160 flag =
     (if get_error_for_asset_name asset \<noteq> None then Inl AssertionError
      else if \<not> length h160 = 20 then Inl AssertionError
      else
        bind_exc (int_to_hex (int (length asset)) 1) (\<lambda>n.
        bind_exc (str_encode asset) (\<lambda>s.
        construct_script [Opcode OP_ASSET, HexData h160, HexData (n @ s @ flag_byte flag)])))"

section \<open>Decoded output information (asset.py, lines 340-424)\<close>

datatype AssetVoutType = NONE | TRANSFER | CREATE | OWNER | REISSUE | NULL | VERIFIER | FREEZE

text \<open>
  The class hierarchy under \<open>BaseAssetVoutInformation\<close>: one constructor per concrete
  class, holding the arguments its \<open>__init__\<close> stores.
\<close>

datatype AssetVoutInformation =
    NoAssetVoutInformation
  | MetadataAssetVoutInformation AssetVoutType bool str int int bool "bytes option"
  | OwnerAssetVoutInformation bool str
  | TransferAssetVoutInformation bool str int "bytes option" "int option"
  | NullTagAssetVoutInformation str bytes bool
  | VerifierTagAssetVoutInformation str
  | FreezeTagAssetVoutInformation str bool

text \<open>What each \<open>__init__\<close> passes to \<open>BaseAssetVoutInformation.__init__\<close>.\<close>

fun get_type :: "AssetVoutInformation \<Rightarrow> AssetVoutType" where
  "get_type NoAssetVoutInformation = NONE"
| "get_type (MetadataAssetVoutInformation vtype well_formed asset amount divisions reissuable data) = vtype"
| "get_type (OwnerAssetVoutInformation well_formed asset) = OWNER"
| "get_type (TransferAssetVoutInformation well_formed asset amount memo ts) = TRANSFER"
| "get_type (NullTagAssetVoutInformation asset h160 flag) = NULL"
| "get_type (VerifierTagAssetVoutInformation verifier_string) = VERIFIER"
| "get_type (FreezeTagAssetVoutInformation asset flag) = FREEZE"

fun well_formed_script :: "AssetVoutInformation \<Rightarrow> bool" where
  "well_formed_script NoAssetVoutInformation = True"
| "well_formed_script (MetadataAssetVoutInformation vtype well_formed asset amount divisions reissuable data) = well_formed"
| "well_formed_script (OwnerAssetVoutInformation well_formed asset) = well_formed"
| "well_formed_script (TransferAssetVoutInformation well_formed asset amount memo ts) = well_formed"
| "well_formed_script (NullTagAssetVoutInformation asset h160 flag) = True"
| "well_formed_script (VerifierTagAssetVoutInformation verifier_string) = True"
| "well_formed_script (FreezeTagAssetVoutInformation asset flag) = True"

definition is_transferable :: "AssetVoutInformation \<Rightarrow> bool" where
  "is_transferable v = (get_type v \<in> {CREATE, OWNER, TRANSFER, REISSUE})"

text \<open>\<open>BaseAssetVoutInformation.is_deterministic\<close>, the method the subclasses inherit.\<close>

definition base_is_deterministic :: "AssetVoutInformation \<Rightarrow> bool" where
  "base_is_deterministic v = (get_type v \<in> {TRANSFER, OWNER, NONE} \<and> well_formed_script v)"

text \<open>
  Method dispatch: \<open>TransferAssetVoutInformation\<close> and \<open>TagAssetVoutInformation\<close>
  (the base of the three tag classes) override \<open>is_deterministic\<close>; the tag classes
  override \<open>is_tag\<close>.
\<close>

fun is_deterministic :: "AssetVoutInformation \<Rightarrow> bool" where
  "is_deterministic (TransferAssetVoutInformation well_formed asset amount memo ts) =
     (memo = None \<and> ts = None \<and> base_is_deterministic (TransferAssetVoutInformation well_formed asset amount memo ts))"
| "is_deterministic (NullTagAssetVoutInformation asset h160 flag) = True"
| "is_deterministic (VerifierTagAssetVoutInformation verifier_string) = True"
| "is_deterministic (FreezeTagAssetVoutInformation asset flag) = True"
| "is_deterministic v = base_is_deterministic v"

fun is_tag :: "AssetVoutInformation \<Rightarrow> bool" where
  "is_tag (NullTagAssetVoutInformation asset h160 flag) = True"
| "is_tag (VerifierTagAssetVoutInformation verifier_string) = True"
| "is_tag (FreezeTagAssetVoutInformation asset flag) = True"
| "is_tag v = False"

section \<open>Collaborators of the decoder\<close>

text \<open>\<open>bytes.decode()\<close>: strict UTF-8.\<close>

definition is_cont :: "nat \<Rightarrow> bool" where
  "is_cont b = (0x80 \<le> b \<and> b \<le> 0xBF)"

fun decode_codepoints :: "nat list \<Rightarrow> exception + str" where
  "decode_codepoints [] = Inr []"
| "decode_codepoints (b0 # bs) =
     (if b0 < 0x80 then bind_exc (decode_codepoints bs) (\<lambda>s. Inr (b0 # s))
      else if 0xC2 \<le> b0 \<and> b0 \<le> 0xDF then
        (case bs of
           b1 # r \<Rightarrow>
             if is_cont b1
             then bind_exc (decode_codepoints r) (\<lambda>s. Inr (((b0 - 0xC0) * 64 + (b1 - 0x80)) # s))
             else Inl UnicodeDecodeError
         | _ \<Rightarrow> Inl UnicodeDecodeError)
      else if 0xE0 \<le> b0 \<and> b0 \<le> 0xEF then
        (case bs of
           b1 # b2 # r \<Rightarrow>
             if is_cont b1 \<and> is_cont b2 \<and> (if b0 = 0xE0 then 0xA0 \<le> b1 else True) \<and> (if b0 = 0xED then b1 \<le> 0x9F else True)
             then bind_exc (decode_codepoints r)
                    (\<lambda>s. Inr (((b0 - 0xE0) * 4096 + (b1 - 0x80) * 64 + (b2 - 0x80)) # s))
             else Inl UnicodeDecodeError
         | _ \<Rightarrow> Inl UnicodeDecodeError)
      else if 0xF0 \<le> b0 \<and> b0 \<le> 0xF4 then
        (case bs of
           b1 # b2 # b3 # r \<Rightarrow>
             if is_cont b1 \<and> is_cont b2 \<and> is_cont b3 \<and>
                (if b0 = 0xF0 then 0x90 \<le> b1 else True) \<and> (if b0 = 0xF4 then b1 \<le> 0x8F else True)
             then bind_exc (decode_codepoints r)
                    (\<lambda>s. Inr (((b0 - 0xF0) * 262144 + (b1 - 0x80) * 4096 + (b2 - 0x80) * 64 + (b3 - 0x80)) # s))
             else Inl UnicodeDecodeError
         | _ \<Rightarrow> Inl UnicodeDecodeError)
      else Inl UnicodeDecodeError)"

definition bytes_decode :: "bytes \<Rightarrow> exception + str" where
  "bytes_decode b = decode_codepoints (map unat b)"

text \<open>\<open>bytes.find(sub)\<close>: the index of the first occurrence, or \<open>-1\<close>.\<close>

fun find_from :: "bytes \<Rightarrow> bytes \<Rightarrow> nat \<Rightarrow> int" where
  "find_from [] sub i = (if sub = [] then int i else - 1)"
| "find_from (x # xs) sub i =
     (if take (length sub) (x # xs) = sub then int i else find_from xs sub (i + 1))"

definition bytes_find :: "bytes \<Rightarrow> bytes \<Rightarrow> int" where
  "bytes_find b sub = find_from b sub 0"

text \<open>
  Modelled from the spec: \<open>script_GetOp\<close>, the disassembler.  One step reads the
  opcode at offset \<open>i\<close>; for a push opcode it reads the size (the opcode itself, or
  the 1, 2 or 4 bytes after \<open>OP_PUSHDATA1/2/4\<close>, whose absence is the malformed
  condition; \<open>push_size\<close> gives the size and the number of size bytes) and slices the data, which is shorter than the size when the script ends
  early.  The triple carries the offset after the operation.
\<close>

type_synonym op_triple = "nat \<times> bytes option \<times> nat"

definition push_size :: "nat \<Rightarrow> bytes \<Rightarrow> exception + nat \<times> nat" where
  "push_size opcode rest =
     (if opcode = OP_PUSHDATA1 then
        (if length rest < 1 then Inl MalformedBitcoinScript
         else Inr (nat (int_from_bytes_little (take 1 rest)), 1))
      else if opcode = OP_PUSHDATA2 then
        (if length rest < 2 then Inl MalformedBitcoinScript
         else Inr (nat (int_from_bytes_little (take 2 rest)), 2))
      else if opcode = OP_PUSHDATA4 then
        (if length rest < 4 then Inl MalformedBitcoinScript
         else Inr (nat (int_from_bytes_little (take 4 rest)), 4))
      else Inr (opcode, 0))"

definition script_GetOp_step :: "nat \<Rightarrow> byte \<Rightarrow> bytes \<Rightarrow> exception + (op_triple \<times> bytes)" where
  "script_GetOp_step i b rest =
     (let opcode = unat b
      in if opcode \<le> OP_PUSHDATA4 then
           (case push_size opcode rest of
              Inl e \<Rightarrow> Inl e
            | Inr (nSize, hdr) \<Rightarrow>
                Inr ((opcode, Some (take nSize (drop hdr rest)), i + 1 + hdr + nSize),
                     drop nSize (drop hdr rest)))
         else Inr ((opcode, None, i + 1), rest))"

lemma script_GetOp_step_length:
  "script_GetOp_step i b rest = Inr (t, rest') \<Longrightarrow> length rest' \<le> length rest"
  by (auto simp: script_GetOp_step_def Let_def split: if_splits sum.splits)

function script_GetOp_at :: "nat \<Rightarrow> bytes \<Rightarrow> exception + op_triple list" where
  "script_GetOp_at i [] = Inr []"
| "script_GetOp_at i (b # rest) =
     (case script_GetOp_step i b rest of
        Inl e \<Rightarrow> Inl e
      | Inr (t, rest') \<Rightarrow>
          (case script_GetOp_at (snd (snd t)) rest' of
             Inl e \<Rightarrow> Inl e
           | Inr ops \<Rightarrow> Inr (t # ops)))"
  by pat_completeness auto
termination
  by (relation "measure (\<lambda>(i, bs). length bs)") (auto dest: script_GetOp_step_length)

definition script_GetOp :: "bytes \<Rightarrow> exception + op_triple list" where
  "script_GetOp b = script_GetOp_at 0 b"

text \<open>\<open>next(script_GetOp(data))\<close>: only the first operation is computed.\<close>

definition script_GetOp_next :: "bytes option \<Rightarrow> exception + op_triple" where
  "script_GetOp_next data =
     (case data of
        None \<Rightarrow> Inl TypeError
      | Some [] \<Rightarrow> Inl StopIteration
      | Some (b # rest) \<Rightarrow> bind_exc (script_GetOp_step 0 b rest) (\<lambda>(t, rest'). Inr t))"

text \<open>
  Modelled from the spec: \<open>ByteReader\<close>.  The reader is the bytes not yet read; a
  read past the end raises \<open>IndexError\<close>, which the decoder turns into the sentinel.
  A reader over \<open>None\<close> fails with \<open>TypeError\<close>.
\<close>

type_synonym ByteReader = bytes

definition new_ByteReader :: "bytes option \<Rightarrow> exception + ByteReader" where
  "new_ByteReader data = (case data of None \<Rightarrow> Inl TypeError | Some d \<Rightarrow> Inr d)"

definition can_read_amount :: "ByteReader \<Rightarrow> nat \<Rightarrow> bool" where
  "can_read_amount reader n = (n \<le> length reader)"

definition read_bytes :: "ByteReader \<Rightarrow> nat \<Rightarrow> exception + (bytes \<times> ByteReader)" where
  "read_bytes reader n =
     (if can_read_amount reader n then Inr (take n reader, drop n reader) else Inl IndexError)"

definition read_byte_as_int :: "ByteReader \<Rightarrow> exception + (nat \<times> ByteReader)" where
  "read_byte_as_int reader =
     (case reader of [] \<Rightarrow> Inl IndexError | b # rest \<Rightarrow> Inr (unat b, rest))"

text \<open>\<open>decoded[k]\<close>, with Python's \<open>IndexError\<close>.\<close>

definition item_at :: "'a list \<Rightarrow> nat \<Rightarrow> exception + 'a" where
  "item_at xs k = (if k < length xs then Inr (xs ! k) else Inl IndexError)"

section \<open>Script decoder (asset.py, lines 426-522)\<close>

text \<open>
  The branch for a script that starts with the asset marker.  \<open>None\<close> is the
  \<open>continue\<close> of the loop.
\<close>

definition tag_branch :: "op_triple list \<Rightarrow> bytes \<Rightarrow> exception + AssetVoutInformation option" where
  "tag_branch decoded asset_portion =
     bind_exc (item_at decoded 1) (\<lambda>(op1, data1, index1).
     if op1 = OP_RESERVED then
       bind_exc (item_at decoded 2) (\<lambda>(op2, data2, index2).
       if op2 = OP_RESERVED then
         bind_exc (item_at decoded 3) (\<lambda>(op3, internal_data, index3).
         bind_exc (new_ByteReader internal_data) (\<lambda>reader.
         bind_exc (read_byte_as_int reader) (\<lambda>(asset_length, reader).
         bind_exc (read_bytes reader asset_length) (\<lambda>(asset_b, reader).
         bind_exc (read_byte_as_int reader) (\<lambda>(flag_int, reader).
         bind_exc (bytes_decode asset_b) (\<lambda>asset.
         Inr (Some (FreezeTagAssetVoutInformation asset (flag_int \<noteq> 0)))))))))
       else
         bind_exc (script_GetOp_next data2) (\<lambda>(opv, verifier_string, indexv).
         case verifier_string of
           None \<Rightarrow> Inl AttributeError
         | Some vs \<Rightarrow> bind_exc (bytes_decode vs) (\<lambda>s. Inr (Some (VerifierTagAssetVoutInformation s)))))
     else
       bind_exc (read_byte_as_int asset_portion) (\<lambda>(first_byte, reader).
       if first_byte \<noteq> 0x14 then Inr None
       else
         bind_exc (read_bytes reader 0x14) (\<lambda>(h160, reader).
         bind_exc (read_byte_as_int reader) (\<lambda>(internal_asset_portion_len, reader).
         bind_exc (read_byte_as_int reader) (\<lambda>(asset_name_len, reader).
         bind_exc (read_bytes reader asset_name_len) (\<lambda>(asset_bytes, reader).
         bind_exc (read_byte_as_int reader) (\<lambda>(flag_int, reader).
         bind_exc (bytes_decode asset_bytes) (\<lambda>asset.
         Inr (Some (NullTagAssetVoutInformation asset h160 (flag_int \<noteq> 0)))))))))))"

text \<open>\<open>well_formed\<close>: the rest of the script is the canonical push of the payload, then drop.\<close>

definition well_formed_flag :: "op_triple list \<Rightarrow> nat \<Rightarrow> bytes \<Rightarrow> exception + bool" where
  "well_formed_flag decoded i asset_portion =
     (if length decoded > i + 1 then
        (case fst (snd (decoded ! (i + 1))) of
           None \<Rightarrow> Inr False
         | Some data \<Rightarrow>
             bind_exc (op_push (length data)) (\<lambda>op_push_prefix.
             Inr (op_push_prefix @ data @ [0x75] = asset_portion)))
      else Inr False)"

text \<open>
  The branch for a marker further into the script, in two parts: the reads after the
  protocol prefix (\<open>read_asset_payload\<close>, from \<open>vout_type = reader.read_bytes(1)\<close>
  on), and before them the \<open>well_formed\<close> flag and the search for the prefix.  Every
  \<open>break\<close> of the source leaves the loop for the final
  \<open>return NoAssetVoutInformation()\<close>.
\<close>

definition read_asset_payload :: "bool \<Rightarrow> ByteReader \<Rightarrow> exception + AssetVoutInformation" where
  "read_asset_payload well_formed reader0 =
     bind_exc (read_bytes reader0 1)
       (\<lambda>(vout_type, reader).
     if vout_type \<noteq> RVN_ASSET_TYPE_CREATE \<and> vout_type \<noteq> RVN_ASSET_TYPE_OWNER \<and>
        vout_type \<noteq> RVN_ASSET_TYPE_TRANSFER \<and> vout_type \<noteq> RVN_ASSET_TYPE_REISSUE
     then Inr NoAssetVoutInformation
     else
       bind_exc (read_byte_as_int reader) (\<lambda>(asset_length, reader).
       bind_exc (read_bytes reader asset_length) (\<lambda>(asset_b, reader).
       bind_exc (bytes_decode asset_b) (\<lambda>asset.
       if vout_type = RVN_ASSET_TYPE_OWNER then Inr (OwnerAssetVoutInformation well_formed asset)
       else
         bind_exc (read_bytes reader 8) (\<lambda>(asset_amount_bytes, reader).
         let asset_amount = int_from_bytes_little asset_amount_bytes
         in if vout_type = RVN_ASSET_TYPE_TRANSFER then
              (if can_read_amount reader 34 then
                 bind_exc (read_bytes reader 34) (\<lambda>(memo, reader).
                 if can_read_amount reader 8 then
                   bind_exc (read_bytes reader 8) (\<lambda>(timestamp_bytes, reader).
                   Inr (TransferAssetVoutInformation well_formed asset asset_amount (Some memo)
                          (Some (int_from_bytes_little timestamp_bytes))))
                 else Inr (TransferAssetVoutInformation well_formed asset asset_amount (Some memo) None))
               else Inr (TransferAssetVoutInformation well_formed asset asset_amount None None))
            else
              bind_exc (read_byte_as_int reader) (\<lambda>(divisions, reader).
              bind_exc (read_byte_as_int reader) (\<lambda>(reissuable_int, reader).
              if vout_type = RVN_ASSET_TYPE_CREATE then
                bind_exc (read_byte_as_int reader) (\<lambda>(has_associated_data, reader).
                if has_associated_data = 1 then
                  bind_exc (read_bytes reader 34) (\<lambda>(associated_data, reader).
                  Inr (MetadataAssetVoutInformation CREATE well_formed asset asset_amount
                         (int divisions) (reissuable_int = 1) (Some associated_data)))
                else
                  Inr (MetadataAssetVoutInformation CREATE well_formed asset asset_amount
                         (int divisions) (reissuable_int = 1) None))
              else
                (if can_read_amount reader 34 then
                   bind_exc (read_bytes reader 34) (\<lambda>(associated_data, reader).
                   Inr (MetadataAssetVoutInformation REISSUE well_formed asset asset_amount
                          (int divisions) (reissuable_int = 1) (Some associated_data)))
                 else
                   Inr (MetadataAssetVoutInformation REISSUE well_formed asset asset_amount
                          (int divisions) (reissuable_int = 1) None)))))))))"

definition value_branch :: "op_triple list \<Rightarrow> nat \<Rightarrow> bytes \<Rightarrow> exception + AssetVoutInformation" where
  "value_branch decoded i asset_portion =
     bind_exc (well_formed_flag decoded i asset_portion) (\<lambda>well_formed.
     let asset_prefix_position = bytes_find asset_portion RVN_ASSET_PREFIX
     in if asset_prefix_position < 0 then Inr NoAssetVoutInformation
        else if length asset_portion < length RVN_ASSET_PREFIX + 3 then Inr NoAssetVoutInformation
        else
          read_asset_payload well_formed
            (drop (nat asset_prefix_position + length RVN_ASSET_PREFIX) asset_portion))"

text \<open>The loop over the disassembled operations, from index \<open>i\<close> on.\<close>

function scan_ops :: "bytes \<Rightarrow> op_triple list \<Rightarrow> nat \<Rightarrow> exception + AssetVoutInformation" where
  "scan_ops script decoded i =
     (if i < length decoded then
        (case decoded ! i of
           (opc, data, index) \<Rightarrow>
             if opc = OP_ASSET then
               (if i = 0 then
                  (case tag_branch decoded (drop index script) of
                     Inl e \<Rightarrow> Inl e
                   | Inr (Some info) \<Rightarrow> Inr info
                   | Inr None \<Rightarrow> scan_ops script decoded (i + 1))
                else value_branch decoded i (drop index script))
             else scan_ops script decoded (i + 1))
      else Inr NoAssetVoutInformation)"
  by pat_completeness auto
termination
  by (relation "measure (\<lambda>(script, decoded, i). length decoded - i)") auto

declare scan_ops.simps [simp del]

text \<open>
  The result is \<open>None\<close> (Python's \<open>None\<close>) when the disassembly is malformed; an
  \<open>IndexError\<close> of the scan gives the sentinel; every other exception leaves the
  function.
\<close>

definition get_asset_info_from_script :: "bytes \<Rightarrow> exception + AssetVoutInformation option" where
  "get_asset_info_from_script script =
     (case script_GetOp script of
        Inl e \<Rightarrow> (if e = MalformedBitcoinScript then Inr None else Inl e)
      | Inr decoded \<Rightarrow>
          (case scan_ops script decoded 0 of
             Inl e \<Rightarrow> (if e = IndexError then Inr (Some NoAssetVoutInformation) else Inl e)
           | Inr info \<Rightarrow> Inr (Some info)))"

section \<open>Verifier expressions\<close>

datatype OP = OP_NONE | OP_AND | OP_OR | OP_NOT | OP_VAR

datatype BooleanExprAST = BooleanExprAST (op: OP) (l_chld: child) (r_chld: child) (error_field: "str option")
  and child = NoChild | StrChild str | NodeChild BooleanExprAST

definition error_node :: "str \<Rightarrow> child" where
  "error_node msg = NodeChild (BooleanExprAST OP_NONE NoChild NoChild (Some msg))"

definition var_node :: "str \<Rightarrow> child" where
  "var_node name = NodeChild (BooleanExprAST OP_VAR (StrChild name) NoChild None)"

definition is_name_char :: "nat \<Rightarrow> bool" where
  "is_name_char ch = re_match [[Bol, One name_class, Eol]] [ch]"

fun not_pass :: "child list \<Rightarrow> bool \<Rightarrow> bool \<Rightarrow> child list \<Rightarrow> bool \<times> child list" where
  "not_pass [] is_not all_nots_resolved top_level_p_n = (all_nots_resolved, top_level_p_n)"
| "not_pass (item # items) is_not all_nots_resolved top_level_p_n =
     (if item = StrChild (lit ''!'') then not_pass items (\<not> is_not) False top_level_p_n
      else if is_not then
        not_pass items False True (top_level_p_n @ [NodeChild (BooleanExprAST OP_NOT item NoChild None)])
      else not_pass items is_not True (top_level_p_n @ [item]))"

fun and_pass :: "child list \<Rightarrow> bool \<Rightarrow> child list \<Rightarrow> child + bool \<times> child list" where
  "and_pass [] looking top_level_p_n_a = Inr (looking, top_level_p_n_a)"
| "and_pass (item # items) looking top_level_p_n_a =
     (if item = StrChild (lit ''&'') then and_pass items True top_level_p_n_a
      else if looking then
        (if length top_level_p_n_a = 0 then Inl (error_node (lit ''No left side of AND statement''))
         else and_pass items False
                (butlast top_level_p_n_a @ [NodeChild (BooleanExprAST OP_AND (last top_level_p_n_a) item None)]))
      else and_pass items False (top_level_p_n_a @ [item]))"

fun or_pass :: "child list \<Rightarrow> bool \<Rightarrow> child list \<Rightarrow> child + bool \<times> child list" where
  "or_pass [] looking top_level_p_n_a_o = Inr (looking, top_level_p_n_a_o)"
| "or_pass (item # items) looking top_level_p_n_a_o =
     (if item = StrChild (lit ''|'') then or_pass items True top_level_p_n_a_o
      else if looking then
        (if length top_level_p_n_a_o = 0 then Inl (error_node (lit ''No left side of OR statement''))
         else or_pass items False
                (butlast top_level_p_n_a_o @ [NodeChild (BooleanExprAST OP_OR (last top_level_p_n_a_o) item None)]))
      else or_pass items False (top_level_p_n_a_o @ [item]))"

definition reduce_passes :: "child list \<Rightarrow> exception + child" where
  "reduce_passes top_level_parenthesized =
     (case not_pass top_level_parenthesized False True [] of (all_nots_resolved, top_level_p_n) \<Rightarrow>
        if \<not> all_nots_resolved then Inr (error_node (lit ''Bad NOT placement''))
        else (case and_pass top_level_p_n False [] of
                Inl early \<Rightarrow> Inr early
              | Inr (looking_and, top_level_p_n_a) \<Rightarrow>
                  if looking_and then Inr (error_node (lit ''No right side of AND statement''))
                  else (case or_pass top_level_p_n_a False [] of
                          Inl early \<Rightarrow> Inr early
                        | Inr (looking_or, top_level_p_n_a_o) \<Rightarrow>
                            if looking_or then Inr (error_node (lit ''No right side of OR statement''))
                            else if length top_level_p_n_a_o > 1 then
                              Inr (error_node (lit ''Variables exist with no operators between them''))
                            else (case top_level_p_n_a_o of [] \<Rightarrow> Inl IndexError | first # rest \<Rightarrow> Inr first))))"

function parse_string :: "str \<Rightarrow> exception + child"
  and parse_string_loop ::
    "str \<Rightarrow> nat \<Rightarrow> nat option \<Rightarrow> nat option \<Rightarrow> nat \<Rightarrow> nat \<Rightarrow> child list
      \<Rightarrow> exception + (child + nat option \<times> child list)"
where
  "parse_string verifier =
     (if length verifier = 0 then Inr (error_node (lit ''Empty string''))
      else if length verifier > 80 then Inr (error_node (lit ''Verifier is too long''))
      else (case parse_string_loop verifier 0 None None 0 0 [] of
              Inl e \<Rightarrow> Inl e
            | Inr (Inl early) \<Rightarrow> Inr early
            | Inr (Inr (last_name_index, top_level_parenthesized)) \<Rightarrow>
                reduce_passes
                  (case last_name_index of
                     Some n \<Rightarrow>
                       if is_name_char (last verifier)
                       then top_level_parenthesized @ [var_node (slice verifier n (length verifier - 1 + 1))]
                       else top_level_parenthesized
                   | None \<Rightarrow> top_level_parenthesized)))"
| "parse_string_loop verifier i last_parenthesis_index last_name_index l_tok r_tok top_level_parenthesized =
     (if i < length verifier then
        (let ch = verifier ! i in
         if last_parenthesis_index = None \<and> is_name_char ch then
           parse_string_loop verifier (i + 1) last_parenthesis_index
             (if last_name_index = None then Some i else last_name_index) l_tok r_tok top_level_parenthesized
         else
           (let top1 = (if last_parenthesis_index = None
                        then (case last_name_index of
                                Some n \<Rightarrow> top_level_parenthesized @ [var_node (slice verifier n i)]
                              | None \<Rightarrow> top_level_parenthesized)
                        else top_level_parenthesized);
                name1 = (if last_parenthesis_index = None then None else last_name_index);
                paren1 = (if ch = ord CHR ''('' \<and> l_tok = 0 then Some i else last_parenthesis_index);
                l_tok1 = (if ch = ord CHR ''('' then l_tok + 1 else l_tok);
                r_tok1 = (if ch \<noteq> ord CHR ''('' \<and> ch = ord CHR '')'' then r_tok + 1 else r_tok)
            in (case paren1 of
                  Some p \<Rightarrow>
                    if l_tok1 = r_tok1 then
                      (case parse_string (slice verifier (p + 1) i) of
                         Inl e \<Rightarrow> Inl e
                       | Inr node \<Rightarrow> parse_string_loop verifier (i + 1) None name1 0 0 (top1 @ [node]))
                    else parse_string_loop verifier (i + 1) paren1 name1 l_tok1 r_tok1 top1
                | None \<Rightarrow>
                    if one_of ''&|!'' ch then
                      parse_string_loop verifier (i + 1) paren1 name1 l_tok1 r_tok1 (top1 @ [StrChild [ch]])
                    else Inr (Inl (error_node (lit ''Unable to parse token '' @ [ch]))))))
      else Inr (Inr (last_name_index, top_level_parenthesized)))"
  by pat_completeness auto
termination
proof (relation "measures [
    (\<lambda>x. case x of Inl v \<Rightarrow> length v | Inr (v, i, r) \<Rightarrow> length v),
    (\<lambda>x. case x of Inl v \<Rightarrow> 1 | Inr r \<Rightarrow> 0),
    (\<lambda>x. case x of Inl v \<Rightarrow> 0 | Inr (v, i, r) \<Rightarrow> length v - i)]")
qed (auto simp: slice_def)

declare parse_string.simps [simp del] parse_string_loop.simps [simp del]

fun evaluate :: "BooleanExprAST \<Rightarrow> (str \<rightharpoonup> bool) \<Rightarrow> exception + bool" where
  "evaluate (BooleanExprAST opr l r err) bool_dict =
     (if truthy err then Inl (Exception (the err))
      else (case opr of
        OP_AND \<Rightarrow>
          (case (l, r) of
             (NodeChild ln, NodeChild rn) \<Rightarrow>
               (case evaluate ln bool_dict of
                  Inl e \<Rightarrow> Inl e
                | Inr a \<Rightarrow> if a then evaluate rn bool_dict else Inr a)
           | _ \<Rightarrow> Inl AssertionError)
      | OP_OR \<Rightarrow>
          (case (l, r) of
             (NodeChild ln, NodeChild rn) \<Rightarrow>
               (case evaluate ln bool_dict of
                  Inl e \<Rightarrow> Inl e
                | Inr a \<Rightarrow> if a then Inr a else evaluate rn bool_dict)
           | _ \<Rightarrow> Inl AssertionError)
      | OP_NOT \<Rightarrow>
          (case (l, r) of
             (NodeChild ln, NoChild) \<Rightarrow>
               (case evaluate ln bool_dict of Inl e \<Rightarrow> Inl e | Inr a \<Rightarrow> Inr (\<not> a))
           | _ \<Rightarrow> Inl AssertionError)
      | OP_VAR \<Rightarrow>
          (case (l, r) of
             (StrChild name, NoChild) \<Rightarrow>
               (case bool_dict name of
                  None \<Rightarrow> Inl (Exception (lit ''Key '' @ name @ lit '' does not exist''))
                | Some v \<Rightarrow> Inr v)
           | _ \<Rightarrow> Inl AssertionError)
      | OP_NONE \<Rightarrow> Inl (Exception (lit ''Unknown OP OP.NONE''))))"





section \<open>AssetMetadata\<close>

text \<open>
  \<open>str()\<close> of an \<open>int\<close> is its decimal numeral, with a leading minus sign for a
  negative number; \<open>str()\<close> of a \<open>bool\<close> is \<open>True\<close> or \<open>False\<close>.
\<close>

function decimal :: "int \<Rightarrow> str" where
  "decimal n = (if n < 10 then [48 + nat n] else decimal (n div 10) @ [48 + nat (n mod 10)])"
  by pat_completeness auto
termination
  by (relation "measure nat") auto

declare decimal.simps [simp del]

definition str_int :: "int \<Rightarrow> str" where
  "str_int i = (if i < 0 then 45 # decimal (- i) else decimal i)"

definition str_bool :: "bool \<Rightarrow> str" where
  "str_bool b = (if b then lit ''True'' else lit ''False'')"

text \<open>\<open>str.encode('ascii')\<close>: a code point from 128 on has no encoding.\<close>

definition encode_ascii :: "str \<Rightarrow> exception + bytes" where
  "encode_ascii s =
     (if list_all (\<lambda>c. c < 128) s then Inr (map of_nat s) else Inl UnicodeEncodeError)"

text \<open>\<open>bytes.hex()\<close>: two lower-case hexadecimal digits for each byte.\<close>

definition hex_digit :: "nat \<Rightarrow> nat" where
  "hex_digit d = (if d < 10 then 48 + d else 87 + d)"

definition bytes_hex :: "bytes \<Rightarrow> str" where
  "bytes_hex bs = concat (map (\<lambda>b. [hex_digit (unat b div 16), hex_digit (unat b mod 16)]) bs)"

text \<open>
  \<open>AssetMetadata\<close>.  The converter of \<open>associated_data\<close> turns an empty value into
  \<open>None\<close>.  The fields \<open>divisions\<close>, \<open>reissuable\<close> and \<open>associated_data\<close> carry the
  prefix \<open>metadata_\<close>, the plain names being those of the encoder's parameters.
  \<open>hashlib.sha256\<close> and \<open>base_encode\<close> are parameters: \<open>sha256\<close> maps the bytes hashed to
  the digest, \<open>base_encode v base\<close> is the text of \<open>v\<close> in the given base.
\<close>

record AssetMetadata =
  sats_in_circulation :: int
  metadata_divisions :: int
  metadata_reissuable :: bool
  metadata_associated_data :: "bytes option"

definition associated_data_as_ipfs ::
  "(bytes \<Rightarrow> nat \<Rightarrow> str) \<Rightarrow> 'a AssetMetadata_scheme \<Rightarrow> str option" where
  "associated_data_as_ipfs base_encode self =
     (if \<not> truthy (metadata_associated_data self) then None
      else Some (base_encode (the (metadata_associated_data self)) 58))"

text \<open>\<open>h += None\<close> raises \<open>TypeError\<close>.\<close>

definition status ::
  "(bytes \<Rightarrow> bytes) \<Rightarrow> (bytes \<Rightarrow> nat \<Rightarrow> str) \<Rightarrow> 'a AssetMetadata_scheme \<Rightarrow> exception + str" where
  "status sha256 base_encode self =
     (let h = str_int (sats_in_circulation self) @ str_int (metadata_divisions self) @
              str_bool (metadata_reissuable self) @ str_bool (metadata_associated_data self \<noteq> None)
      in bind_exc
           (if metadata_associated_data self \<noteq> None then
              (case associated_data_as_ipfs base_encode self of
                 None \<Rightarrow> Inl TypeError
               | Some ipfs \<Rightarrow> Inr (h @ ipfs))
            else Inr h)
           (\<lambda>h. bind_exc (encode_ascii h) (\<lambda>b. Inr (bytes_hex (sha256 b)))))"

text \<open>
  The decimal string form of an integer, stated on the string: \<open>decimal_form s n\<close> holds
  when \<open>s\<close> is a minus sign followed by the digits of \<open>- n\<close> for a negative \<open>n\<close>, and the
  digits of \<open>n\<close> otherwise; the digits are a string of \<open>0\<close> to \<open>9\<close> that is not empty,
  has no leading zero unless it is the single digit \<open>0\<close>, and has the value \<open>n\<close> in base 10.
\<close>

definition is_digit :: "nat \<Rightarrow> bool" where
  "is_digit c = (48 \<le> c \<and> c \<le> 57)"

definition digits_value :: "str \<Rightarrow> int" where
  "digits_value s = foldl (\<lambda>a c. 10 * a + (int c - 48)) 0 s"

definition digits_of :: "str \<Rightarrow> int \<Rightarrow> bool" where
  "digits_of s n =
     (s \<noteq> [] \<and> list_all is_digit s \<and> (length s = 1 \<or> hd s \<noteq> 48) \<and> digits_value s = n)"

definition decimal_form :: "str \<Rightarrow> int \<Rightarrow> bool" where
  "decimal_form s n =
     (if n < 0 then s \<noteq> [] \<and> hd s = 45 \<and> digits_of (tl s) (- n) else digits_of s n)"

text \<open>
  The status in the words of the specification: the hexadecimal digest of the ASCII bytes
  of the decimal string forms of circulation, divisions, reissuable and ``has associated
  data'' (a boolean having the decimal forms \<open>1\<close> and \<open>0\<close>), followed by the base-58 text
  of the associated data when it is present.
\<close>

definition bool_int :: "bool \<Rightarrow> int" where
  "bool_int b = (if b then 1 else 0)"

definition status_spec ::
  "(bytes \<Rightarrow> bytes) \<Rightarrow> (bytes \<Rightarrow> nat \<Rightarrow> str) \<Rightarrow> str \<Rightarrow> str \<Rightarrow> str \<Rightarrow> str \<Rightarrow> bytes option \<Rightarrow> str" where
  "status_spec sha256 base_encode sats divs reiss has_data data =
     bytes_hex (sha256 (map of_nat
       (sats @ divs @ reiss @ has_data @ (case data of None \<Rightarrow> [] | Some d \<Rightarrow> base_encode d 58))))"

section \<open>Notions used in the statements\<close>

text \<open>A pattern that ends in \<open>$\<close> and whose classes lie within \<open>P\<close>.\<close>

fun within :: "(nat \<Rightarrow> bool) \<Rightarrow> rx \<Rightarrow> bool" where
  "within P Bol = True"
| "within P Eol = True"
| "within P (One c) = (\<forall>x. c x \<longrightarrow> P x)"
| "within P (AtLeast n c) = (\<forall>x. c x \<longrightarrow> P x)"

text \<open>
  A base script for the round trip: it is not empty, it disassembles without the
  malformed condition into operations none of which is the asset marker, and its last
  operation ends where the script ends (no push runs past the end).
\<close>

definition clean_base :: "bytes \<Rightarrow> bool" where
  "clean_base base =
     (case script_GetOp base of
        Inl e \<Rightarrow> False
      | Inr ops \<Rightarrow> ops \<noteq> [] \<and> list_all (\<lambda>t. fst t \<noteq> OP_ASSET) ops \<and> snd (snd (last ops)) = length base)"

text \<open>The payload of a Create operation, as \<open>generate_create_script\<close> assembles it.\<close>

definition create_payload :: "str \<Rightarrow> int \<Rightarrow> int \<Rightarrow> bool \<Rightarrow> bytes option \<Rightarrow> bytes" where
  "create_payload asset amount divisions reissuable associated_data =
     RVN_ASSET_PREFIX @ RVN_ASSET_TYPE_CREATE @ [of_nat (length asset)] @ map of_nat asset @
     le_bytes amount 8 @ [of_int divisions] @ flag_byte reissuable @ flag_byte (truthy associated_data) @
     data_bytes associated_data"

section \<open>Properties of the name validator\<close>

lemma rmatch_AtLeast:
  "rmatch (AtLeast n c # r) pos s =
     (\<exists>k. n \<le> k \<and> k \<le> length s \<and> list_all c (take k s) \<and> rmatch r (pos + k) (drop k s))"
proof (induction s arbitrary: n pos)
  case Nil
  show ?case by (cases n) auto
next
  case (Cons x xs)
  show ?case
  proof (cases n)
    case 0
    have "rmatch (AtLeast 0 c # r) pos (x # xs) =
            (rmatch r pos (x # xs) \<or> (c x \<and> rmatch (AtLeast 0 c # r) (Suc pos) xs))"
      by simp
    also have "\<dots> = (rmatch r pos (x # xs) \<or>
        (c x \<and> (\<exists>k. k \<le> length xs \<and> list_all c (take k xs) \<and> rmatch r (Suc pos + k) (drop k xs))))"
      by (simp add: Cons.IH)
    also have "\<dots> = (\<exists>k. k \<le> length (x # xs) \<and> list_all c (take k (x # xs)) \<and>
                          rmatch r (pos + k) (drop k (x # xs)))" (is "?L = ?R")
    proof
      assume ?L
      then show ?R
      proof
        assume "rmatch r pos (x # xs)"
        then show ?R by (intro exI [of _ 0]) simp
      next
        assume "c x \<and> (\<exists>k. k \<le> length xs \<and> list_all c (take k xs) \<and> rmatch r (Suc pos + k) (drop k xs))"
        then obtain k where "c x" "k \<le> length xs" "list_all c (take k xs)" "rmatch r (Suc pos + k) (drop k xs)"
          by blast
        then show ?R by (intro exI [of _ "Suc k"]) simp
      qed
    next
      assume ?R
      then obtain k where k: "k \<le> length (x # xs)" "list_all c (take k (x # xs))"
                             "rmatch r (pos + k) (drop k (x # xs))" by blast
      show ?L
      proof (cases k)
        case 0
        with k show ?thesis by simp
      next
        case (Suc j)
        with k show ?thesis by auto
      qed
    qed
    finally show ?thesis using 0 by simp
  next
    case (Suc m)
    have "rmatch (AtLeast (Suc m) c # r) pos (x # xs) = (c x \<and> rmatch (AtLeast m c # r) (Suc pos) xs)"
      by simp
    also have "\<dots> = (c x \<and> (\<exists>k. m \<le> k \<and> k \<le> length xs \<and> list_all c (take k xs) \<and>
                                 rmatch r (Suc pos + k) (drop k xs)))"
      by (simp add: Cons.IH)
    also have "\<dots> = (\<exists>k. Suc m \<le> k \<and> k \<le> length (x # xs) \<and> list_all c (take k (x # xs)) \<and>
                          rmatch r (pos + k) (drop k (x # xs)))" (is "?L = ?R")
    proof
      assume ?L
      then obtain k where "c x" "m \<le> k" "k \<le> length xs" "list_all c (take k xs)"
                          "rmatch r (Suc pos + k) (drop k xs)" by blast
      then show ?R by (intro exI [of _ "Suc k"]) simp
    next
      assume ?R
      then obtain k where k: "Suc m \<le> k" "k \<le> length (x # xs)" "list_all c (take k (x # xs))"
                             "rmatch r (pos + k) (drop k (x # xs))" by blast
      then obtain j where "k = Suc j" by (cases k) auto
      with k show ?L by auto
    qed
    finally show ?thesis using Suc by simp
  qed
qed

lemma rmatch_class_run:
  "rmatch [Bol, AtLeast n c, Eol] 0 s =
     (\<exists>t. n \<le> length t \<and> list_all c t \<and> (s = t \<or> s = t @ [10]))"
proof
  assume "rmatch [Bol, AtLeast n c, Eol] 0 s"
  then obtain k where k: "n \<le> k" "k \<le> length s" "list_all c (take k s)"
      "drop k s = [] \<or> drop k s = [10]"
    by (auto simp: rmatch_AtLeast)
  have "s = take k s @ drop k s" by simp
  with k(4) have "s = take k s \<or> s = take k s @ [10]" by (metis append_Nil2)
  with k show "\<exists>t. n \<le> length t \<and> list_all c t \<and> (s = t \<or> s = t @ [10])"
    by (intro exI [of _ "take k s"]) (simp add: min_def)
next
  assume "\<exists>t. n \<le> length t \<and> list_all c t \<and> (s = t \<or> s = t @ [10])"
  then obtain t where t: "n \<le> length t" "list_all c t" "s = t \<or> s = t @ [10]" by blast
  then show "rmatch [Bol, AtLeast n c, Eol] 0 s"
    by (auto simp: rmatch_AtLeast intro!: exI [of _ "length t"])
qed

lemma split_not_Nil: "split s d \<noteq> []"
  by (induction s) (auto split: list.splits)

lemma split_no_sep: "d \<notin> set s \<Longrightarrow> split s d = [s]"
  by (induction s) auto

lemma split_append_sep: "d \<notin> set a \<Longrightarrow> split (a @ d # b) d = a # split b d"
  by (induction a) (auto simp: split_not_Nil split: list.splits)

lemma split_chars: "x \<in> set s \<Longrightarrow> x = d \<or> (\<exists>p \<in> set (split s d). x \<in> set p)"
  by (induction s) (auto split: list.splits if_splits)

lemma hd_split_Nil: "hd (split [] d) = []"
  by simp

lemma ord_simps:
  "chr_is c x = (x = of_char c)"
  "in_range a b x = (of_char a \<le> x \<and> x \<le> of_char b)"
  by (simp_all add: chr_is_def in_range_def ord_def)

lemma name_class_iff:
  "name_class x = ((65 \<le> x \<and> x \<le> 90) \<or> (48 \<le> x \<and> x \<le> 57) \<or> x = 46 \<or> x = 95)"
  by (auto simp: name_class_def in_range_def one_of_def ord_def)

lemma unique_tag_class_iff:
  "unique_tag_class x =
     (x = 45 \<or> (65 \<le> x \<and> x \<le> 90) \<or> (97 \<le> x \<and> x \<le> 122) \<or> (48 \<le> x \<and> x \<le> 57) \<or>
      x \<in> {64, 36, 37, 38, 42, 40, 41, 91, 93, 123, 125, 95, 46, 63, 58})"
  by (auto simp: unique_tag_class_def in_range_def one_of_def ord_def)

lemma none_of_left_iff: "none_of ''^~#!'' x = (x \<notin> {94, 126, 35, 33})"
  by (auto simp: none_of_def one_of_def ord_def)

lemma none_of_right_iff: "none_of ''~#!/'' x = (x \<notin> {126, 35, 33, 47})"
  by (auto simp: none_of_def one_of_def ord_def)

lemma re_match_class_run:
  "re_match [[Bol, AtLeast n c, Eol]] s =
     (\<exists>t. n \<le> length t \<and> list_all c t \<and> (s = t \<or> s = t @ [10]))"
  unfolding re_match_def list_ex_Cons_iff list_ex_Nil_iff rmatch_class_run by simp

lemma isRootNameValid_run:
  "isRootNameValid p \<Longrightarrow> \<exists>t. 3 \<le> length t \<and> list_all name_class t \<and> (p = t \<or> p = t @ [10])"
  unfolding isRootNameValid_def ROOT_NAME_CHARACTERS_def re_match_class_run by blast

lemma isSubNameValid_run:
  "isSubNameValid p \<Longrightarrow> \<exists>t. 1 \<le> length t \<and> list_all name_class t \<and> (p = t \<or> p = t @ [10])"
  unfolding isSubNameValid_def SUB_NAME_CHARACTERS_def re_match_class_run by blast

lemma isUniqueTagValid_run:
  "isUniqueTagValid p = (\<exists>t. 1 \<le> length t \<and> list_all unique_tag_class t \<and> (p = t \<or> p = t @ [10]))"
  unfolding isUniqueTagValid_def UNIQUE_TAG_CHARACTERS_def re_match_class_run by blast

lemma run_chars:
  "\<exists>t. n \<le> length t \<and> list_all c t \<and> (p = t \<or> p = t @ [10]) \<Longrightarrow> x \<in> set p \<Longrightarrow> c x \<or> x = 10"
  by (auto simp: list_all_iff)

lemma run_not_Nil:
  "\<exists>t. n \<le> length t \<and> list_all c t \<and> (p = t \<or> p = t @ [10]) \<Longrightarrow> 0 < n \<Longrightarrow> p \<noteq> []"
  by auto

lemma isNameValidBeforeTag_chars:
  assumes "isNameValidBeforeTag s" and "x \<in> set s"
  shows "name_class x \<or> x = 10 \<or> x = 47"
proof -
  let ?parts = "split s SUB_NAME_DELIMITER"
  from assms(1) have r: "isRootNameValid (hd ?parts)" and t: "list_all isSubNameValid (tl ?parts)"
    by (simp_all add: isNameValidBeforeTag_def Let_def)
  from split_chars [OF assms(2), of SUB_NAME_DELIMITER]
  consider "x = SUB_NAME_DELIMITER" | p where "p \<in> set ?parts" "x \<in> set p" by blast
  then show ?thesis
  proof cases
    case 1
    then show ?thesis by (simp add: SUB_NAME_DELIMITER_def ord_def)
  next
    case 2
    have "?parts = hd ?parts # tl ?parts" by (simp add: split_not_Nil)
    with 2(1) have "p = hd ?parts \<or> p \<in> set (tl ?parts)" by (metis set_ConsD)
    then show ?thesis
    proof
      assume "p = hd ?parts"
      with r 2(2) run_chars [OF isRootNameValid_run] show ?thesis by blast
    next
      assume "p \<in> set (tl ?parts)"
      with t have "isSubNameValid p" by (simp add: list_all_iff)
      with 2(2) run_chars [OF isSubNameValid_run] show ?thesis by blast
    qed
  qed
qed

lemma isNameValidBeforeTag_not_Nil: "isNameValidBeforeTag s \<Longrightarrow> s \<noteq> []"
proof
  assume v: "isNameValidBeforeTag s" and "s = []"
  then have "isRootNameValid []" by (simp add: isNameValidBeforeTag_def)
  from run_not_Nil [OF isRootNameValid_run [OF this]] show False by simp
qed

lemma indicator_match:
  assumes "a \<noteq> []" "list_all c1 a" "b \<noteq> []" "list_all c2 b"
  shows "rmatch [Bol, AtLeast 1 c1, One (chr_is ch), AtLeast 1 c2, Eol] 0 (a @ ord ch # b)"
proof -
  have "rmatch [AtLeast 1 c2, Eol] (Suc (length a)) b"
    unfolding rmatch_AtLeast using assms(3,4)
    by (intro exI [of _ "length b"]) (cases b, auto)
  then have "rmatch [One (chr_is ch), AtLeast 1 c2, Eol] (0 + length a) (drop (length a) (a @ ord ch # b))"
    by (simp add: chr_is_def)
  then have "rmatch [AtLeast 1 c1, One (chr_is ch), AtLeast 1 c2, Eol] 0 (a @ ord ch # b)"
    unfolding rmatch_AtLeast [of 1 c1] using assms(1,2)
    by (intro exI [of _ "length a"]) (cases a, auto)
  then show ?thesis by simp
qed

lemma run_end_chars:
  assumes "list_all c (take j xs)" "drop j xs = [] \<or> drop j xs = [10]" "x \<in> set xs"
  shows "c x \<or> x = (10::nat)"
proof -
  have "set xs = set (take j xs) \<union> set (drop j xs)"
    by (metis append_take_drop_id set_append)
  with assms(3) have "x \<in> set (take j xs) \<or> x \<in> set (drop j xs)" by simp
  then show ?thesis
  proof
    assume "x \<in> set (take j xs)"
    with assms(1) show ?thesis by (simp add: list_all_iff)
  next
    assume "x \<in> set (drop j xs)"
    with assms(2) show ?thesis by auto
  qed
qed

lemma rmatch_One_Cons:
  "rmatch (One c # r) pos s \<Longrightarrow> \<exists>x xs. s = x # xs \<and> c x \<and> rmatch r (Suc pos) xs"
  by (cases s) simp_all

lemma indicator_split:
  assumes "rmatch [Bol, AtLeast 1 c1, One (chr_is ch), AtLeast 1 c2, Eol] 0 s"
  shows "\<exists>a b. s = a @ ord ch # b \<and> list_all c1 a \<and> (\<forall>x \<in> set b. c2 x \<or> x = 10)"
proof -
  from assms have "rmatch (AtLeast 1 c1 # [One (chr_is ch), AtLeast 1 c2, Eol]) 0 s"
    by simp
  then obtain k where k: "list_all c1 (take k s)"
      "rmatch (One (chr_is ch) # [AtLeast 1 c2, Eol]) (0 + k) (drop k s)"
    unfolding rmatch_AtLeast by blast
  from rmatch_One_Cons [OF k(2)] obtain x xs where
    xs: "drop k s = x # xs" "chr_is ch x" "rmatch (AtLeast 1 c2 # [Eol]) (Suc (0 + k)) xs"
    by blast
  from xs(3) obtain j where j: "list_all c2 (take j xs)" "rmatch [Eol] (Suc (0 + k) + j) (drop j xs)"
    unfolding rmatch_AtLeast by blast
  from j(2) have e: "drop j xs = [] \<or> drop j xs = [10]" by simp
  have "\<forall>y \<in> set xs. c2 y \<or> y = 10"
    using run_end_chars [OF j(1) e] by blast
  moreover have "s = take k s @ drop k s" by simp
  then have "s = take k s @ ord ch # xs"
    using xs(1,2) by (simp add: chr_is_def)
  ultimately show ?thesis using k(1) by blast
qed
lemma owner_indicator_split:
  assumes "rmatch [Bol, AtLeast 1 c1, One (chr_is ch), Eol] 0 s"
  shows "\<exists>a. (s = a @ [ord ch] \<or> s = a @ [ord ch, 10]) \<and> list_all c1 a"
proof -
  from assms obtain k where k: "list_all c1 (take k s)"
      "rmatch [One (chr_is ch), Eol] k (drop k s)"
    by (auto simp: rmatch_AtLeast)
  from k(2) have "drop k s = [ord ch] \<or> drop k s = [ord ch, 10]"
    by (cases "drop k s") (auto simp: chr_is_def)
  moreover have "s = take k s @ drop k s" by simp
  ultimately have "s = take k s @ [ord ch] \<or> s = take k s @ [ord ch, 10]" by metis
  with k(1) show ?thesis by blast
qed

lemma rmatch_within:
  "rmatch r pos s \<Longrightarrow> r \<noteq> [] \<Longrightarrow> last r = Eol \<Longrightarrow> list_all (within P) r \<Longrightarrow> x \<in> set s \<Longrightarrow> P x \<or> x = 10"
proof (induction r pos s rule: rmatch.induct)
  case (1 pos s)
  then show ?case by simp
next
  case (2 r pos s)
  then have "r \<noteq> []" by (cases r) auto
  with 2 show ?case by auto
next
  case (3 r pos s)
  then show ?case by auto
next
  case (4 c r pos s)
  then have "r \<noteq> []" by (cases r) auto
  with 4 show ?case by (cases s) auto
next
  case (5 n c r pos s)
  then have "r \<noteq> []" by (cases r) auto
  with 5 show ?case by (cases s) auto
next
  case (6 c r pos s)
  then have r: "r \<noteq> []" by (cases r) auto
  from "6.prems"(1) consider "rmatch r pos s"
    | y ys where "s = y # ys" "c y" "rmatch (AtLeast 0 c # r) (Suc pos) ys"
    by (cases s) auto
  then show ?case
  proof cases
    case 1
    with 6 r show ?thesis by auto
  next
    case 2
    with 6 r show ?thesis by auto
  qed
qed

lemma name_class_ascii: "name_class x \<Longrightarrow> x < 128"
  by (auto simp: name_class_iff)

lemma isNameValidBeforeTag_ascii: "isNameValidBeforeTag s \<Longrightarrow> x \<in> set s \<Longrightarrow> x < 128"
  using isNameValidBeforeTag_chars [of s x] by (auto simp: name_class_iff)

lemma isUniqueTagValid_ascii: "isUniqueTagValid s \<Longrightarrow> x \<in> set s \<Longrightarrow> x < 128"
  unfolding isUniqueTagValid_run using run_chars [of 1 unique_tag_class s x]
  by (auto simp: unique_tag_class_iff)

lemma msg_channel_tag_class_ascii: "msg_channel_tag_class x \<Longrightarrow> x < 128"
  by (auto simp: msg_channel_tag_class_def in_range_def one_of_def ord_def)

lemma isMsgChannelTagValid_ascii: "isMsgChannelTagValid s \<Longrightarrow> x \<in> set s \<Longrightarrow> x < 128"
  unfolding isMsgChannelTagValid_def MSG_CHANNEL_TAG_CHARACTERS_def re_match_class_run
  using run_chars [of 1 msg_channel_tag_class s x] msg_channel_tag_class_ascii [of x]
  by auto

lemma tagged_name_ascii:
  assumes ind: "rmatch [Bol, AtLeast 1 (none_of ''^~#!''), One (chr_is ch), AtLeast 1 (none_of ''~#!/''), Eol] 0 asset"
    and ch: "ord ch = 35 \<or> ord ch = 126"
    and left: "isNameValidBeforeTag (hd (split asset (ord ch)))"
    and right: "\<And>y. y \<in> set (last (split asset (ord ch))) \<Longrightarrow> y < 128"
    and x: "x \<in> set asset"
  shows "x < 128"
proof -
  from indicator_split [OF ind] obtain a b where
    ab: "asset = a @ ord ch # b" "list_all (none_of ''^~#!'') a"
        "\<forall>y \<in> set b. none_of ''~#!/'' y \<or> y = 10"
    by blast
  have na: "ord ch \<notin> set a"
  proof
    assume "ord ch \<in> set a"
    with ab(2) have "none_of ''^~#!'' (ord ch)" by (simp add: list_all_iff)
    with ch show False by (auto simp: none_of_left_iff)
  qed
  have nb: "ord ch \<notin> set b"
  proof
    assume "ord ch \<in> set b"
    with ab(3) have "none_of ''~#!/'' (ord ch) \<or> ord ch = 10" by blast
    with ch show False by (auto simp: none_of_right_iff)
  qed
  have parts: "split asset (ord ch) = [a, b]"
    unfolding ab(1) using split_append_sep [OF na, of b] split_no_sep [OF nb] by simp
  from x have "x \<in> set a \<or> x = ord ch \<or> x \<in> set b" unfolding ab(1) by auto
  moreover have "x < 128" if "x \<in> set a"
    using left that isNameValidBeforeTag_ascii [of a x] unfolding parts by simp
  moreover have "x < 128" if "x \<in> set b"
    using right [of x] that unfolding parts by simp
  moreover have "x < 128" if "x = ord ch"
    using ch that by auto
  ultimately show ?thesis by blast
qed

lemma valid_name_ascii:
  assumes ok: "get_error_for_asset_name asset = None" and x: "x \<in> set asset"
  shows "x < 128"
proof -
  let ?P = "\<lambda>y::nat. y < 128"
  consider
      (u) "re_match UNIQUE_INDICATOR asset" "get_error_for_asset_typed asset AssetType_UNIQUE = None"
    | (m) "re_match MSG_CHANNEL_INDICATOR asset" "get_error_for_asset_typed asset AssetType_MSG_CHANNEL = None"
    | (o) "re_match OWNER_INDICATOR asset" "get_error_for_asset_typed asset AssetType_OWNER = None"
    | (q) "re_match QUALIFIER_INDICATOR asset"
    | (sq) "re_match SUB_QUALIFIER_INDICATOR asset"
    | (r) "re_match RESTRICTED_INDICATOR asset"
    | (rs) "get_error_for_asset_typed asset AssetType_SUB = None \<or>
            get_error_for_asset_typed asset AssetType_ROOT = None"
    using ok by (auto simp: get_error_for_asset_name_def split: if_splits)
  then show ?thesis
  proof cases
    case u
    from u(2) have v: "isNameValidBeforeTag (hd (split asset UNIQUE_TAG_DELIMITER))"
        "isUniqueTagValid (last (split asset UNIQUE_TAG_DELIMITER))"
      by (auto simp: get_error_for_asset_typed_def Let_def split: if_splits)
    from u(1) have "rmatch [Bol, AtLeast 1 (none_of ''^~#!''), One (chr_is CHR ''#''),
                            AtLeast 1 (none_of ''~#!/''), Eol] 0 asset"
      by (simp add: re_match_def UNIQUE_INDICATOR_def del: rmatch.simps)
    from tagged_name_ascii [OF this _ _ _ x] v isUniqueTagValid_ascii
    show ?thesis by (auto simp: UNIQUE_TAG_DELIMITER_def ord_def)
  next
    case m
    from m(2) have v: "isNameValidBeforeTag (hd (split asset MSG_CHANNEL_DELIMITER))"
        "isMsgChannelTagValid (last (split asset MSG_CHANNEL_DELIMITER))"
      by (auto simp: get_error_for_asset_typed_def Let_def split: if_splits)
    from m(1) have "rmatch [Bol, AtLeast 1 (none_of ''^~#!''), One (chr_is CHR ''~''),
                            AtLeast 1 (none_of ''~#!/''), Eol] 0 asset"
      by (simp add: re_match_def MSG_CHANNEL_INDICATOR_def del: rmatch.simps)
    from tagged_name_ascii [OF this _ _ _ x] v isMsgChannelTagValid_ascii
    show ?thesis by (auto simp: MSG_CHANNEL_DELIMITER_def ord_def)
  next
    case o
    from o(2) have v: "isNameValidBeforeTag (butlast asset)"
      by (auto simp: get_error_for_asset_typed_def split: if_splits)
    from o(1) have "rmatch [Bol, AtLeast 1 (none_of ''^~#!''), One (chr_is CHR ''!''), Eol] 0 asset"
      by (simp add: re_match_def OWNER_INDICATOR_def del: rmatch.simps)
    from owner_indicator_split [OF this] obtain a where
      a: "asset = a @ [ord CHR ''!''] \<or> asset = a @ [ord CHR ''!'', 10]" by blast
    then have "asset \<noteq> []" and l: "last asset = ord CHR ''!'' \<or> last asset = 10" by auto
    then have "asset = butlast asset @ [last asset]" by simp
    with x have "x \<in> set (butlast asset) \<or> x = last asset"
      by (metis Un_iff empty_iff empty_set insert_iff list.simps(15) set_append)
    then show ?thesis
      using isNameValidBeforeTag_ascii [OF v] l by (auto simp: ord_def)
  next
    case q
    then have "rmatch [Bol, One (one_of ''#''), AtLeast 3 name_class, Eol] 0 asset"
      by (simp add: re_match_def QUALIFIER_INDICATOR_def del: rmatch.simps)
    from rmatch_within [OF this, of ?P x] x show ?thesis
      by (auto simp: name_class_iff one_of_def ord_def)
  next
    case sq
    then have "rmatch [Bol, One (chr_is CHR ''#''), AtLeast 1 name_class, One (chr_is CHR ''/''),
                       One (chr_is CHR ''#''), AtLeast 1 name_class, Eol] 0 asset"
      by (simp add: re_match_def SUB_QUALIFIER_INDICATOR_def del: rmatch.simps)
    from rmatch_within [OF this, of ?P x] x show ?thesis
      by (auto simp: name_class_iff chr_is_def ord_def)
  next
    case r
    then have "rmatch [Bol, One (one_of ''$''), AtLeast 3 name_class, Eol] 0 asset"
      by (simp add: re_match_def RESTRICTED_INDICATOR_def del: rmatch.simps)
    from rmatch_within [OF this, of ?P x] x show ?thesis
      by (auto simp: name_class_iff one_of_def ord_def)
  next
    case rs
    then have "isNameValidBeforeTag asset"
      by (auto simp: get_error_for_asset_typed_def Let_def split: if_splits)
    from isNameValidBeforeTag_ascii [OF this x] show ?thesis .
  qed
qed

lemma valid_name_length: "get_error_for_asset_name asset = None \<Longrightarrow> length asset \<le> 40"
  by (auto simp: get_error_for_asset_name_def split: if_splits)

section \<open>Properties of the verifier expression engine\<close>






text \<open>
  Claim C6.  \<open>A&B|!C\<close> parses to \<open>OR(AND(A, B), NOT(C))\<close>, and that tree evaluates
  to true under \<open>{A: true, B: false, C: false}\<close>.
\<close>

theorem parse_string_precedence:
  "parse_string (lit ''A&B|!C'') =
     Inr (NodeChild (BooleanExprAST OP_OR
            (NodeChild (BooleanExprAST OP_AND (var_node (lit ''A'')) (var_node (lit ''B'')) None))
            (NodeChild (BooleanExprAST OP_NOT (var_node (lit ''C'')) NoChild None))
            None)) \<and>
   evaluate
     (BooleanExprAST OP_OR
        (NodeChild (BooleanExprAST OP_AND (var_node (lit ''A'')) (var_node (lit ''B'')) None))
        (NodeChild (BooleanExprAST OP_NOT (var_node (lit ''C'')) NoChild None))
        None)
     [lit ''A'' \<mapsto> True, lit ''B'' \<mapsto> False, lit ''C'' \<mapsto> False] = Inr True"
  by code_simp




section \<open>Claims about the name validator\<close>

text \<open>
  Claim C5 fails on the code for the restricted marker: \<open>BAD_NAMES\<close> lists the
  reserved words bare and with a leading \<open>#\<close>, never with a leading \<open>$\<close>, so the
  check that \<open>isRestrictedNameValid\<close> makes against it cannot fire.  \<open>RVN\<close> and
  \<open>#RVN\<close> are rejected, \<open>$RVN\<close> is accepted.
\<close>

theorem reserved_name_with_restricted_marker:
  "get_error_for_asset_name (lit ''RVN'') \<noteq> None \<and>
   get_error_for_asset_name (lit ''#RVN'') \<noteq> None \<and>
   re_match RESTRICTED_INDICATOR (lit ''$RVN'') \<and>
   isRestrictedNameValid (lit ''$RVN'') \<and>
   get_error_for_asset_name (lit ''$RVN'') = None"
  by code_simp

text \<open>
  Claim C8, as stated, fails: the Unique branch of \<open>get_error_for_asset_typed\<close> first
  checks the length against \<open>MAX_NAME_LENGTH = 32\<close>.  A name of 33 characters with a
  valid root name before \<open>#\<close> and a valid tag after it is rejected.
\<close>

theorem unique_name_length_counterexample:
  "get_error_for_asset_name (lit ''ABCDEFGHIJKLMNOPQRSTUVWXYZ01'') = None \<and>
   isNameValidBeforeTag (lit ''ABCDEFGHIJKLMNOPQRSTUVWXYZ01'') \<and>
   isUniqueTagValid (lit ''TAG1'') \<and>
   length (lit ''ABCDEFGHIJKLMNOPQRSTUVWXYZ01#TAG1'') = 33 \<and>
   get_error_for_asset_name (lit ''ABCDEFGHIJKLMNOPQRSTUVWXYZ01#TAG1'') =
     Some (lit ''Name is greater than max length of 32.'')"
  by code_simp

text \<open>
  Claim C8, amended.  For a name \<open>left#tag\<close> whose left side passes the Root/Sub check
  \<open>isNameValidBeforeTag\<close> and whose tag matches the unique-tag character class, the
  validator accepts the name whenever its overall length is at most 32, and rejects it
  whenever it is longer: with the message of \<open>MAX_NAME_LENGTH\<close> for 33 to 40
  characters, as too long beyond 40.
\<close>

theorem unique_name_accepted:
  assumes left: "isNameValidBeforeTag left"
    and tag: "isUniqueTagValid tag"
  shows "get_error_for_asset_name (left @ [UNIQUE_TAG_DELIMITER] @ tag) =
           (if length (left @ [UNIQUE_TAG_DELIMITER] @ tag) \<le> 32 then None
            else if length (left @ [UNIQUE_TAG_DELIMITER] @ tag) \<le> 40 then
              Some (lit ''Name is greater than max length of 32.'')
            else Some (lit ''Asset is too long''))"
proof -
  let ?asset = "left @ [UNIQUE_TAG_DELIMITER] @ tag"
  have asset: "?asset = left @ ord CHR ''#'' # tag" by (simp add: UNIQUE_TAG_DELIMITER_def)
  have "none_of ''^~#!'' x" if "x \<in> set left" for x
    using isNameValidBeforeTag_chars [OF left that]
    by (auto simp: name_class_iff none_of_left_iff)
  then have l1: "list_all (none_of ''^~#!'') left"
    by (simp add: list_all_iff)
  have tchars: "unique_tag_class x \<or> x = 10" if "x \<in> set tag" for x
    using tag run_chars that unfolding isUniqueTagValid_run by blast
  have "none_of ''~#!/'' x" if "x \<in> set tag" for x
    using tchars [OF that] by (auto simp: unique_tag_class_iff none_of_right_iff)
  then have l2: "list_all (none_of ''~#!/'') tag"
    by (simp add: list_all_iff)
  have tn: "tag \<noteq> []" using tag unfolding isUniqueTagValid_run by auto
  have ind: "re_match UNIQUE_INDICATOR ?asset"
    unfolding asset re_match_def UNIQUE_INDICATOR_def
    using indicator_match [OF isNameValidBeforeTag_not_Nil [OF left] l1 tn l2] by simp
  have nl: "UNIQUE_TAG_DELIMITER \<notin> set left"
    using l1 by (auto simp: list_all_iff none_of_left_iff UNIQUE_TAG_DELIMITER_def ord_def)
  have nt: "UNIQUE_TAG_DELIMITER \<notin> set tag"
    using l2 by (auto simp: list_all_iff none_of_right_iff UNIQUE_TAG_DELIMITER_def ord_def)
  have parts: "split ?asset UNIQUE_TAG_DELIMITER = [left, tag]"
    using split_append_sep [OF nl, of tag] split_no_sep [OF nt] by simp
  have typed: "get_error_for_asset_typed ?asset AssetType_UNIQUE =
      (if length ?asset \<le> 32 then None else Some (lit ''Name is greater than max length of 32.''))"
    using left tag
    by (simp add: get_error_for_asset_typed_def parts MAX_NAME_LENGTH_def Let_def del: append.simps)
  from ind typed show ?thesis
    by (simp add: get_error_for_asset_name_def del: append.simps)
qed

theorem unique_name_accepted_witness:
  "isNameValidBeforeTag (lit ''FOO'') \<and> isUniqueTagValid (lit ''tag-1'') \<and>
   length (lit ''FOO'' @ [UNIQUE_TAG_DELIMITER] @ lit ''tag-1'') \<le> 32 \<and>
   lit ''FOO'' @ [UNIQUE_TAG_DELIMITER] @ lit ''tag-1'' = lit ''FOO#tag-1'' \<and>
   get_error_for_asset_name (lit ''FOO#tag-1'') = None \<and>
   isNameValidBeforeTag (lit ''ABCDEFGHIJKLMNOPQRSTUVWXYZ01'') \<and> isUniqueTagValid (lit ''TAG1'') \<and>
   length (lit ''ABCDEFGHIJKLMNOPQRSTUVWXYZ01'' @ [UNIQUE_TAG_DELIMITER] @ lit ''TAG1'') = 33 \<and>
   get_error_for_asset_name (lit ''ABCDEFGHIJKLMNOPQRSTUVWXYZ01'' @ [UNIQUE_TAG_DELIMITER] @ lit ''TAG1'') =
     Some (lit ''Name is greater than max length of 32.'')"
proof -
  have a: "isNameValidBeforeTag (lit ''FOO'')" by code_simp
  have b: "isUniqueTagValid (lit ''tag-1'')" by code_simp
  have c: "length (lit ''FOO'' @ [UNIQUE_TAG_DELIMITER] @ lit ''tag-1'') \<le> 32" by (simp add: lit_def)
  have d: "lit ''FOO'' @ [UNIQUE_TAG_DELIMITER] @ lit ''tag-1'' = lit ''FOO#tag-1''"
    by (simp add: lit_def UNIQUE_TAG_DELIMITER_def)
  have "get_error_for_asset_name (lit ''FOO'' @ [UNIQUE_TAG_DELIMITER] @ lit ''tag-1'') = None"
    using unique_name_accepted [OF a b] c by (simp only: if_True)
  then have e: "get_error_for_asset_name (lit ''FOO#tag-1'') = None"
    unfolding d .
  have a': "isNameValidBeforeTag (lit ''ABCDEFGHIJKLMNOPQRSTUVWXYZ01'')" by code_simp
  have b': "isUniqueTagValid (lit ''TAG1'')" by code_simp
  have c': "length (lit ''ABCDEFGHIJKLMNOPQRSTUVWXYZ01'' @ [UNIQUE_TAG_DELIMITER] @ lit ''TAG1'') = 33"
    by (simp add: lit_def)
  have e': "get_error_for_asset_name (lit ''ABCDEFGHIJKLMNOPQRSTUVWXYZ01'' @ [UNIQUE_TAG_DELIMITER] @ lit ''TAG1'') =
      Some (lit ''Name is greater than max length of 32.'')"
    using unique_name_accepted [OF a' b'] unfolding c' by simp
  from a b c d e a' b' c' e' show ?thesis by blast
qed

section \<open>Properties of the codec\<close>

lemma bind_exc_Inr [simp]: "bind_exc (Inr x) f = f x"
  by (simp add: bind_exc_def)

lemma bind_exc_Inl [simp]: "bind_exc (Inl e) f = Inl e"
  by (simp add: bind_exc_def)

lemma le_bytes_length [simp]: "length (le_bytes n k) = k"
  by (induction k arbitrary: n) auto

lemma uint_byte_mod: "uint (of_int (n mod 256) :: byte) = n mod 256"
  by (simp add: uint_word_of_int)

lemma int_from_le_bytes: "int_from_bytes_little (le_bytes n k) = n mod 256 ^ k"
proof (induction k arbitrary: n)
  case 0
  show ?case by simp
next
  case (Suc k)
  have "int_from_bytes_little (le_bytes n (Suc k)) = n mod 256 + 256 * (n div 256 mod 256 ^ k)"
    by (simp add: Suc.IH uint_byte_mod)
  also have "\<dots> = n mod (256 * 256 ^ k)"
    by (simp add: zmod_zmult2_eq add.commute)
  finally show ?case by simp
qed

lemma int_to_hex_amount:
  "0 \<le> amount \<Longrightarrow> amount < 256 ^ 8 \<Longrightarrow> int_to_hex amount 8 = Inr (le_bytes amount 8)"
  by (simp add: int_to_hex_def Let_def)

lemma int_to_hex_byte:
  "0 \<le> i \<Longrightarrow> i < 256 \<Longrightarrow> int_to_hex i 1 = Inr [of_int i]"
  by (simp add: int_to_hex_def Let_def)

lemma unat_of_nat_byte: "n < 256 \<Longrightarrow> unat (of_nat n :: byte) = n"
  by (simp add: unat_of_nat)

lemma str_encode_ascii:
  "\<forall>x \<in> set s. x < 128 \<Longrightarrow> str_encode s = Inr (map of_nat s)"
  by (induction s) (auto simp: encode_char_def)

lemma decode_codepoints_ascii:
  "\<forall>x \<in> set s. x < 128 \<Longrightarrow> decode_codepoints s = Inr s"
  by (induction s) auto

lemma bytes_decode_ascii:
  assumes "\<forall>x \<in> set s. x < 128"
  shows "bytes_decode (map of_nat s) = Inr s"
proof -
  have "map unat (map of_nat s :: bytes) = s"
    using assms by (induction s) (auto simp: unat_of_nat_byte)
  then show ?thesis
    using assms by (simp add: bytes_decode_def decode_codepoints_ascii)
qed

lemma int_to_hex_length:
  "n < 256 \<Longrightarrow> int_to_hex (int n) 1 = Inr [of_nat n]"
  by (simp add: int_to_hex_def Let_def)

lemma op_push_short: "n < 76 \<Longrightarrow> op_push n = Inr [of_nat n]"
  by (simp add: op_push_def OP_PUSHDATA1_def int_to_hex_def Let_def)

lemma op_push_pushdata1: "76 \<le> n \<Longrightarrow> n < 256 \<Longrightarrow> op_push n = Inr [0x4c, of_nat n]"
  by (simp add: op_push_def OP_PUSHDATA1_def int_to_hex_def Let_def)

lemma construct_asset_script:
  assumes "2 \<le> length d" "op_push (length d) = Inr p"
  shows "construct_script [Opcode OP_ASSET, HexData d, Opcode OP_DROP] = Inr (0xc0 # p @ d @ [0x75])"
proof -
  from assms(1) have "d \<noteq> []" "length d \<noteq> 1" "length d \<noteq> 0" by auto
  with assms(2) have "push_script d = Inr (p @ d)"
    by (simp add: push_script_def)
  then show ?thesis
    by (simp add: OP_ASSET_def OP_DROP_def)
qed
lemma push_size_header:
  "push_size opcode rest = Inr (n, h) \<Longrightarrow> h \<le> length rest"
  by (auto simp: push_size_def Suc_le_eq split: if_splits)

lemma push_size_append:
  assumes p: "push_size opcode rest = Inr (n, h)"
  shows "push_size opcode (rest @ b) = Inr (n, h)"
proof -
  from push_size_header [OF p] have h: "h \<le> length rest" .
  then have tk: "take h (rest @ b) = take h rest" by simp
  consider "opcode = 76" | "opcode = 77" | "opcode = 78" | "opcode \<noteq> 76 \<and> opcode \<noteq> 77 \<and> opcode \<noteq> 78"
    by blast
  then show ?thesis
  proof cases
    case 1
    with p have v: "h = 1" "n = nat (int_from_bytes_little (take 1 rest))"
      by (auto simp: push_size_def OP_PUSHDATA1_def split: if_splits)
    have "\<not> length (rest @ b) < 1" unfolding length_append using h v(1) by linarith
    with 1 v tk show ?thesis
      by (simp add: push_size_def OP_PUSHDATA1_def del: take_append length_append)
  next
    case 2
    with p have v: "h = 2" "n = nat (int_from_bytes_little (take 2 rest))"
      by (auto simp: push_size_def OP_PUSHDATA1_def OP_PUSHDATA2_def split: if_splits)
    have "\<not> length (rest @ b) < 2" unfolding length_append using h v(1) by linarith
    with 2 v tk show ?thesis
      by (simp add: push_size_def OP_PUSHDATA1_def OP_PUSHDATA2_def del: take_append length_append)
  next
    case 3
    with p have v: "h = 4" "n = nat (int_from_bytes_little (take 4 rest))"
      by (auto simp: push_size_def OP_PUSHDATA1_def OP_PUSHDATA2_def OP_PUSHDATA4_def split: if_splits)
    have "\<not> length (rest @ b) < 4" unfolding length_append using h v(1) by linarith
    with 3 v tk show ?thesis
      by (simp add: push_size_def OP_PUSHDATA1_def OP_PUSHDATA2_def OP_PUSHDATA4_def
          del: take_append length_append)
  next
    case 4
    with p show ?thesis
      by (simp add: push_size_def OP_PUSHDATA1_def OP_PUSHDATA2_def OP_PUSHDATA4_def)
  qed
qed

lemma script_GetOp_step_index:
  "script_GetOp_step i x rest = Inr (t, rest') \<Longrightarrow> i + 1 + length rest \<le> snd (snd t) + length rest'"
  by (auto simp: script_GetOp_step_def Let_def split: if_splits sum.splits dest: push_size_header)

lemma script_GetOp_step_append:
  assumes s: "script_GetOp_step i x rest = Inr (t, rest')"
    and e: "snd (snd t) + length rest' = i + 1 + length rest"
  shows "script_GetOp_step i x (rest @ b) = Inr (t, rest' @ b)"
proof (cases "unat x \<le> OP_PUSHDATA4")
  case False
  with s show ?thesis by (auto simp: script_GetOp_step_def Let_def)
next
  case True
  with s obtain n h where p: "push_size (unat x) rest = Inr (n, h)"
    and t: "t = (unat x, Some (take n (drop h rest)), i + 1 + h + n)"
    and r: "rest' = drop n (drop h rest)"
    by (auto simp: script_GetOp_step_def Let_def split: sum.splits)
  from push_size_header [OF p] have h: "h \<le> length rest" .
  from e t r h have n: "n \<le> length rest - h" by simp
  from h n have "take n (drop h (rest @ b)) = take n (drop h rest)"
    and "drop n (drop h (rest @ b)) = drop n (drop h rest) @ b"
    by simp_all
  with True push_size_append [OF p, of b] t r show ?thesis
    by (simp add: script_GetOp_step_def Let_def)
qed

lemma script_GetOp_at_Nil: "script_GetOp_at j r = Inr [] \<Longrightarrow> r = []"
  by (cases r) (auto split: sum.splits prod.splits)

lemma script_GetOp_at_last:
  "script_GetOp_at j r = Inr ops \<Longrightarrow> ops \<noteq> [] \<Longrightarrow> j + length r \<le> snd (snd (last ops))"
proof (induction j r arbitrary: ops rule: script_GetOp_at.induct)
  case (1 i)
  then show ?case by simp
next
  case (2 i b rest)
  from "2.prems"(1) obtain t rest' ops' where
    s: "script_GetOp_step i b rest = Inr (t, rest')"
    and r: "script_GetOp_at (snd (snd t)) rest' = Inr ops'"
    and o: "ops = t # ops'"
    by (auto split: sum.splits prod.splits)
  show ?case
  proof (cases "ops' = []")
    case True
    with r have "rest' = []" by (simp add: script_GetOp_at_Nil)
    with script_GetOp_step_index [OF s] o True show ?thesis by simp
  next
    case False
    from "2.IH" [OF s refl r False] script_GetOp_step_index [OF s] o False
    show ?thesis by simp
  qed
qed

lemma script_GetOp_at_append:
  assumes "script_GetOp_at i a = Inr ops"
    and "a = [] \<or> snd (snd (last ops)) = i + length a"
  shows "script_GetOp_at i (a @ b) =
           (case script_GetOp_at (i + length a) b of Inl e \<Rightarrow> Inl e | Inr ops' \<Rightarrow> Inr (ops @ ops'))"
  using assms
proof (induction i a arbitrary: ops rule: script_GetOp_at.induct)
  case (1 i)
  then show ?case by (simp split: sum.splits)
next
  case (2 i x rest)
  from "2.prems"(1) obtain t rest' ops' where
    s: "script_GetOp_step i x rest = Inr (t, rest')"
    and r: "script_GetOp_at (snd (snd t)) rest' = Inr ops'"
    and o: "ops = t # ops'"
    by (auto split: sum.splits prod.splits)
  from "2.prems"(2) have l: "snd (snd (last ops)) = i + 1 + length rest" by simp
  have e: "snd (snd t) + length rest' = i + 1 + length rest"
    and c: "rest' = [] \<or> snd (snd (last ops')) = snd (snd t) + length rest'"
  proof -
    show "snd (snd t) + length rest' = i + 1 + length rest"
    proof (cases "ops' = []")
      case True
      with r have "rest' = []" by (simp add: script_GetOp_at_Nil)
      with l o True show ?thesis by simp
    next
      case False
      from script_GetOp_at_last [OF r False] script_GetOp_step_index [OF s] l o False
      show ?thesis by simp
    qed
    then show "rest' = [] \<or> snd (snd (last ops')) = snd (snd t) + length rest'"
      using l o r script_GetOp_at_Nil [of "snd (snd t)" rest'] by (cases "ops' = []") auto
  qed
  have "script_GetOp_at i ((x # rest) @ b) =
          (case script_GetOp_at (snd (snd t)) (rest' @ b) of Inl e \<Rightarrow> Inl e | Inr ops2 \<Rightarrow> Inr (t # ops2))"
    using script_GetOp_step_append [OF s e, of b] by simp
  also have "script_GetOp_at (snd (snd t)) (rest' @ b) =
          (case script_GetOp_at (snd (snd t) + length rest') b of
             Inl e \<Rightarrow> Inl e | Inr ops2 \<Rightarrow> Inr (ops' @ ops2))"
    using "2.IH" [OF s refl r c] .
  finally show ?case
    using e o by (simp split: sum.splits)
qed

lemma asset_script_ops_short:
  assumes "length d < 76"
  shows "script_GetOp_at j (0xc0 # of_nat (length d) # d @ [0x75]) =
           Inr [(OP_ASSET, None, j + 1), (length d, Some d, j + 2 + length d), (0x75, None, j + 3 + length d)]"
  using assms
  by (simp add: script_GetOp_step_def push_size_def OP_ASSET_def OP_PUSHDATA4_def OP_PUSHDATA1_def
      OP_PUSHDATA2_def unat_of_nat_byte Let_def)

lemma asset_script_ops_pushdata1:
  assumes "76 \<le> length d" "length d < 256"
  shows "script_GetOp_at j (0xc0 # 0x4c # of_nat (length d) # d @ [0x75]) =
           Inr [(OP_ASSET, None, j + 1), (0x4c, Some d, j + 3 + length d), (0x75, None, j + 4 + length d)]"
  using assms
  by (simp add: script_GetOp_step_def push_size_def OP_ASSET_def OP_PUSHDATA4_def OP_PUSHDATA1_def
      OP_PUSHDATA2_def unat_of_nat_byte Let_def uint_nat)

lemma get_error_for_asset_typed_message:
  "get_error_for_asset_typed asset ty = Some m \<Longrightarrow> m \<noteq> []"
  by (cases ty)
     (auto simp: get_error_for_asset_typed_def qualifier_checks_def lit_def Let_def split: if_splits)

lemma get_error_for_asset_name_message:
  "get_error_for_asset_name asset = Some m \<Longrightarrow> m \<noteq> []"
  by (auto simp: get_error_for_asset_name_def lit_def dest: get_error_for_asset_typed_message
      split: if_splits)

lemma truthy_get_error:
  "truthy (get_error_for_asset_name asset) = (get_error_for_asset_name asset \<noteq> None)"
  by (auto simp: truthy_def dest: get_error_for_asset_name_message split: option.splits)


lemma op_push_ok: "n < 65536 \<Longrightarrow> \<exists>p. op_push n = Inr p"
  by (auto simp: op_push_def int_to_hex_def Let_def OP_PUSHDATA1_def)

lemma bind_exc_eq_Inl:
  "(bind_exc m f = Inl e) = (m = Inl e \<or> (\<exists>x. m = Inr x \<and> f x = Inl e))"
  by (cases m) simp_all

lemma int_to_hex_no_AssetException: "int_to_hex i k \<noteq> Inl (AssetException msg)"
  by (simp add: int_to_hex_def Let_def)

lemma op_push_no_AssetException: "op_push n \<noteq> Inl (AssetException msg)"
  by (simp add: op_push_def bind_exc_eq_Inl int_to_hex_no_AssetException)

lemma push_script_no_AssetException: "push_script d \<noteq> Inl (AssetException msg)"
  by (simp add: push_script_def bind_exc_eq_Inl op_push_no_AssetException)

lemma construct_script_no_AssetException: "construct_script items \<noteq> Inl (AssetException msg)"
proof (induction items)
  case Nil
  show ?case by simp
next
  case (Cons item items)
  then show ?case
    by (cases item) (simp_all add: bind_exc_eq_Inl push_script_no_AssetException)
qed

lemma str_encode_no_AssetException: "str_encode t \<noteq> Inl (AssetException msg)"
  by (induction t) (simp_all add: bind_exc_eq_Inl encode_char_def)

lemma transfer_no_AssetException:
  "generate_transfer_script_from_base asset amount base_script \<noteq> Inl (AssetException msg)"
  by (simp add: generate_transfer_script_from_base_def asset_portion_of_transfer_script_def
      bind_exc_eq_Inl int_to_hex_no_AssetException str_encode_no_AssetException
      construct_script_no_AssetException del: construct_script.simps)

lemma transfer_portion_ok:
  assumes "length asset < 256" "\<forall>x \<in> set asset. x < 128" "- (2 ^ 63) \<le> amount" "amount < 2 ^ 64"
  shows "\<exists>portion. asset_portion_of_transfer_script asset amount None = Inr portion"
proof -
  let ?ab = "le_bytes (if amount < 0 then 256 ^ 8 + amount else amount) 8"
  let ?d = "RVN_ASSET_PREFIX @ RVN_ASSET_TYPE_TRANSFER @ [of_nat (length asset)] @ map of_nat asset @
            ?ab @ []"
  have n: "int_to_hex (int (length asset)) 1 = Inr [of_nat (length asset)]"
    using assms(1) by (rule int_to_hex_length)
  have e: "str_encode asset = Inr (map of_nat asset)"
    using assms(2) by (rule str_encode_ascii)
  have a: "int_to_hex amount 8 = Inr ?ab"
    using assms(3,4) by (simp add: int_to_hex_def Let_def)
  have l: "length ?d = 13 + length asset"
    by (simp add: RVN_ASSET_PREFIX_def RVN_ASSET_TYPE_TRANSFER_def)
  then have "length ?d < 65536" "2 \<le> length ?d" using assms(1) by simp_all
  from op_push_ok [OF this(1)] obtain p where p: "op_push (length ?d) = Inr p" by blast
  have c: "construct_script [Opcode OP_ASSET, HexData ?d, Opcode OP_DROP] = Inr (0xc0 # p @ ?d @ [0x75])"
    using \<open>2 \<le> length ?d\<close> p by (rule construct_asset_script)
  show ?thesis
    unfolding asset_portion_of_transfer_script_def n e a bind_exc_Inr option.case c by blast
qed

lemma asset_constants:
  "RVN_ASSET_PREFIX = [0x72, 0x76, 0x6e]"
  "RVN_ASSET_TYPE_CREATE = [0x71]"
  "RVN_ASSET_TYPE_OWNER = [0x6f]"
  "RVN_ASSET_TYPE_TRANSFER = [0x74]"
  "RVN_ASSET_TYPE_REISSUE = [0x72]"
  by (simp_all add: RVN_ASSET_PREFIX_def RVN_ASSET_TYPE_CREATE_def RVN_ASSET_TYPE_OWNER_def
      RVN_ASSET_TYPE_TRANSFER_def RVN_ASSET_TYPE_REISSUE_def ord_def)

lemma create_payload_length:
  "length (create_payload asset amount divisions reissuable associated_data) =
     16 + length asset + length (data_bytes associated_data)"
  by (simp add: create_payload_def asset_constants flag_byte_def)

lemma read_bytes_append:
  "length xs = k \<Longrightarrow> read_bytes (xs @ r) k = Inr (xs, r)"
  by (simp add: read_bytes_def can_read_amount_def)

lemma read_bytes_one: "read_bytes (b # r) (Suc 0) = Inr ([b], r)"
  by (simp add: read_bytes_def can_read_amount_def)

lemma read_byte_as_int_Cons: "read_byte_as_int (b # r) = Inr (unat b, r)"
  by (simp add: read_byte_as_int_def)

lemma bytes_find_after_prefix_1:
  "x \<noteq> 0x72 \<Longrightarrow> bytes_find (x # 0x72 # 0x76 # 0x6e # r) RVN_ASSET_PREFIX = 1"
  by (simp add: bytes_find_def asset_constants)

lemma bytes_find_after_prefix_2:
  "x \<noteq> 0x72 \<Longrightarrow> bytes_find (0x4c # x # 0x72 # 0x76 # 0x6e # r) RVN_ASSET_PREFIX = 2"
  by (simp add: bytes_find_def asset_constants)

lemma of_nat_byte_neq: "n < 256 \<Longrightarrow> m < 256 \<Longrightarrow> n \<noteq> m \<Longrightarrow> (of_nat n :: byte) \<noteq> of_nat m"
  by (metis unat_of_nat_byte)

lemma divisions_byte: "0 \<le> d \<Longrightarrow> d \<le> 8 \<Longrightarrow> int (unat (of_int d :: byte)) = d"
  by (simp add: unat_eq_nat_uint uint_word_of_int)

lemma payload_reads:
  assumes ascii: "\<forall>x \<in> set asset. x < 128" and len: "length asset < 256"
    and amount: "0 \<le> amount" "amount < 256 ^ 8"
    and divisions: "0 \<le> divisions" "divisions \<le> 8"
    and data: "associated_data = None \<or> length (the associated_data) = 34"
  shows "read_asset_payload wfd (drop 3 (create_payload asset amount divisions reissuable associated_data) @ [0x75])
         = Inr (MetadataAssetVoutInformation CREATE wfd asset amount divisions reissuable associated_data)"
proof -
  have am: "int_from_bytes_little (le_bytes amount 8) = amount"
    using amount by (simp add: int_from_le_bytes)
  have rb8: "read_bytes (le_bytes amount 8 @ r) 8 = Inr (le_bytes amount 8, r)" for r
    by (rule read_bytes_append) simp
  have rbn: "read_bytes (map of_nat asset @ r) (length asset) = Inr (map of_nat asset, r)" for r :: bytes
    by (rule read_bytes_append) simp
  have dec: "bytes_decode (map of_nat asset) = Inr asset"
    using ascii by (rule bytes_decode_ascii)
  have un: "unat (of_nat (length asset) :: byte) = length asset"
    using len by (rule unat_of_nat_byte)
  have dv: "uint (of_int divisions :: byte) = divisions"
    using divisions by (simp add: uint_word_of_int)
  show ?thesis
  proof (cases associated_data)
    case None
    then show ?thesis
      by (cases reissuable)
         (simp_all add: read_asset_payload_def create_payload_def asset_constants flag_byte_def data_bytes_def truthy_def
            read_bytes_one read_byte_as_int_Cons rb8 rbn dec un dv am Let_def)
  next
    case (Some x)
    with data have lx: "length x = 34" by simp
    then have nx: "x \<noteq> []" by auto
    have rbx: "read_bytes (x @ r) 34 = Inr (x, r)" for r
      using lx by (rule read_bytes_append)
    from Some nx show ?thesis
      by (cases reissuable)
         (simp_all add: read_asset_payload_def create_payload_def asset_constants flag_byte_def data_bytes_def truthy_def
            read_bytes_one read_byte_as_int_Cons rb8 rbn rbx dec un dv am Let_def)
  qed
qed

lemma create_payload_bounds:
  assumes "length asset \<le> 40" "associated_data = None \<or> length (the associated_data) = 34"
  shows "16 \<le> length (create_payload asset amount divisions reissuable associated_data)"
    and "length (create_payload asset amount divisions reissuable associated_data) \<le> 90"
  using assms by (auto simp: create_payload_length data_bytes_def truthy_def)

lemma create_payload_prefix:
  "create_payload asset amount divisions reissuable associated_data =
     0x72 # 0x76 # 0x6e # drop 3 (create_payload asset amount divisions reissuable associated_data)"
  by (simp add: create_payload_def asset_constants)

lemma bytes_find_pushed:
  assumes "d = 0x72 # 0x76 # 0x6e # r" "x \<noteq> 0x72" "p = [x] \<or> p = [0x4c, x]"
  shows "bytes_find (p @ d @ t) RVN_ASSET_PREFIX = int (length p)"
  using assms by (auto simp: bytes_find_after_prefix_1 bytes_find_after_prefix_2)

lemma value_branch_create:
  assumes ascii: "\<forall>x \<in> set asset. x < 128" and len: "length asset \<le> 40"
    and amount: "0 \<le> amount" "amount < 256 ^ 8"
    and divisions: "0 \<le> divisions" "divisions \<le> 8"
    and data: "associated_data = None \<or> length (the associated_data) = 34"
    and dl: "i + 1 < length decoded"
    and dd: "fst (snd (decoded ! (i + 1))) = Some (create_payload asset amount divisions reissuable associated_data)"
    and p: "op_push (length (create_payload asset amount divisions reissuable associated_data)) = Inr p"
  shows "value_branch decoded i (p @ create_payload asset amount divisions reissuable associated_data @ [0x75]) =
           Inr (MetadataAssetVoutInformation CREATE True asset amount divisions reissuable associated_data)"
proof -
  let ?d = "create_payload asset amount divisions reissuable associated_data"
  note b = create_payload_bounds [OF len data, of amount divisions reissuable]
  have wf: "well_formed_flag decoded i (p @ ?d @ [0x75]) = Inr True"
    using dl dd p by (simp add: well_formed_flag_def)
  have neq: "(of_nat (length ?d) :: byte) \<noteq> 0x72"
    using of_nat_byte_neq [of "length ?d" 114] b(2) by simp
  have pc: "p = [of_nat (length ?d)] \<or> p = [0x4c, of_nat (length ?d)]"
  proof (cases "length ?d < 76")
    case True
    from op_push_short [OF this] p show ?thesis by simp
  next
    case False
    then have "76 \<le> length ?d" "length ?d < 256" using b(2) by simp_all
    from op_push_pushdata1 [OF this] p show ?thesis by simp
  qed
  have f: "bytes_find (p @ ?d @ [0x75]) RVN_ASSET_PREFIX = int (length p)"
    using create_payload_prefix neq pc by (rule bytes_find_pushed)
  have dr: "drop (nat (int (length p)) + length RVN_ASSET_PREFIX) (p @ ?d @ [0x75]) = drop 3 ?d @ [0x75]"
    using b(1) by (simp add: asset_constants)
  have lc: "\<not> length (p @ ?d @ [0x75]) < length RVN_ASSET_PREFIX + 3"
    using b(1) by (simp add: asset_constants)
  have nn: "\<not> int (length p) < 0" by simp
  show ?thesis
    unfolding value_branch_def wf bind_exc_Inr f Let_def dr
    using lc nn payload_reads [OF ascii _ amount divisions data, of True reissuable] len
    by simp
qed

lemma scan_ops_skip:
  assumes "\<forall>k < m. fst (decoded ! k) \<noteq> OP_ASSET" "m \<le> length decoded" "i \<le> m"
  shows "scan_ops script decoded i = scan_ops script decoded m"
  using assms(3)
proof (induction "m - i" arbitrary: i)
  case 0
  then show ?case by simp
next
  case (Suc n)
  then have i: "i < m" by simp
  with assms(2) have il: "i < length decoded" by simp
  from i assms(1) have "fst (decoded ! i) \<noteq> OP_ASSET" by simp
  then have "scan_ops script decoded i = scan_ops script decoded (i + 1)"
    using il by (subst scan_ops.simps) (auto split: prod.splits)
  also have "\<dots> = scan_ops script decoded m"
    using Suc.hyps(1) [of "i + 1"] Suc.hyps(2) i by simp
  finally show ?case .
qed
lemma generate_create_script_shape:
  assumes name: "get_error_for_asset_name asset = None"
    and amount: "0 < amount" "amount \<le> DEFAULT_ASSET_AMOUNT_MAX * COIN"
    and divisions: "0 \<le> divisions" "divisions \<le> 8"
    and data: "associated_data = None \<or> length (the associated_data) = 34"
    and base: "ats address = Inr base_script"
  shows "\<exists>p. op_push (length (create_payload asset amount divisions reissuable associated_data)) = Inr p \<and>
             generate_create_script ats address asset amount divisions reissuable associated_data =
               Inr (base_script @ 0xc0 # p @ create_payload asset amount divisions reissuable associated_data @ [0x75])"
proof -
  let ?d = "create_payload asset amount divisions reissuable associated_data"
  from valid_name_length [OF name] have len: "length asset \<le> 40" .
  from valid_name_ascii [OF name] have ascii: "\<forall>x \<in> set asset. x < 128" by blast
  note b = create_payload_bounds [OF len data, of amount divisions reissuable]
  have c1: "truthy (get_error_for_asset_name asset) = False"
    using name by (simp add: truthy_def)
  have c2: "(\<not> 0 < amount \<or> DEFAULT_ASSET_AMOUNT_MAX * COIN < amount) = False"
    using amount by simp
  have c3: "(divisions < 0 \<or> 8 < divisions) = False"
    using divisions by simp
  have c4: "(truthy associated_data \<and> length (the associated_data) \<noteq> 34) = False"
    using data by (auto simp: truthy_def)
  have n: "int_to_hex (int (length asset)) 1 = Inr [of_nat (length asset)]"
    using len by (intro int_to_hex_length) simp
  have e: "str_encode asset = Inr (map of_nat asset)"
    using ascii by (rule str_encode_ascii)
  have a: "int_to_hex amount 8 = Inr (le_bytes amount 8)"
    using amount by (intro int_to_hex_amount) (simp_all add: DEFAULT_ASSET_AMOUNT_MAX_def COIN_def)
  have dv: "int_to_hex divisions 1 = Inr [of_int divisions]"
    using divisions by (intro int_to_hex_byte) simp_all
  from b(2) have "length ?d < 65536" by simp
  from op_push_ok [OF this] obtain p where p: "op_push (length ?d) = Inr p" by blast
  from b(1) have "2 \<le> length ?d" by simp
  from construct_asset_script [OF this p]
  have c: "construct_script [Opcode OP_ASSET, HexData ?d, Opcode OP_DROP] = Inr (0xc0 # p @ ?d @ [0x75])" .
  have "generate_create_script ats address asset amount divisions reissuable associated_data =
          Inr (base_script @ 0xc0 # p @ ?d @ [0x75])"
    unfolding generate_create_script_def c1 c2 c3 c4 if_False n e a dv bind_exc_Inr
      create_payload_def [symmetric] c base ..
  with p show ?thesis by blast
qed

lemma decode_create_script:
  assumes ascii: "\<forall>x \<in> set asset. x < 128" and len: "length asset \<le> 40"
    and amount: "0 \<le> amount" "amount < 256 ^ 8"
    and divisions: "0 \<le> divisions" "divisions \<le> 8"
    and data: "associated_data = None \<or> length (the associated_data) = 34"
    and p: "op_push (length (create_payload asset amount divisions reissuable associated_data)) = Inr p"
    and base: "clean_base base_script"
  shows "get_asset_info_from_script
           (base_script @ 0xc0 # p @ create_payload asset amount divisions reissuable associated_data @ [0x75]) =
         Inr (Some (MetadataAssetVoutInformation CREATE True asset amount divisions reissuable associated_data))"
proof -
  let ?d = "create_payload asset amount divisions reissuable associated_data"
  let ?script = "base_script @ 0xc0 # p @ ?d @ [0x75]"
  let ?n = "length base_script"
  note b = create_payload_bounds [OF len data, of amount divisions reissuable]
  from base obtain ops where ops: "script_GetOp_at 0 base_script = Inr ops" "ops \<noteq> []"
      "list_all (\<lambda>t. fst t \<noteq> OP_ASSET) ops" "snd (snd (last ops)) = ?n"
    by (auto simp: clean_base_def script_GetOp_def split: sum.splits)
  obtain opc j k where tail: "script_GetOp_at ?n (0xc0 # p @ ?d @ [0x75]) =
      Inr [(OP_ASSET, None, ?n + 1), (opc, Some ?d, j), (0x75, None, k)]"
  proof (cases "length ?d < 76")
    case True
    from op_push_short [OF this] p have "p = [of_nat (length ?d)]" by simp
    with asset_script_ops_short [OF True, of ?n] that show ?thesis by simp
  next
    case False
    then have l: "76 \<le> length ?d" "length ?d < 256" using b(2) by simp_all
    from op_push_pushdata1 [OF this] p have "p = [0x4c, of_nat (length ?d)]" by simp
    with asset_script_ops_pushdata1 [OF l, of ?n] that show ?thesis by simp
  qed
  let ?decoded = "ops @ [(OP_ASSET, None, ?n + 1), (opc, Some ?d, j), (0x75, None, k)]"
  have dec: "script_GetOp ?script = Inr ?decoded"
    unfolding script_GetOp_def
    using script_GetOp_at_append [OF ops(1), of "0xc0 # p @ ?d @ [0x75]"] ops(4) tail by simp
  let ?m = "length ops"
  have skip: "scan_ops ?script ?decoded 0 = scan_ops ?script ?decoded ?m"
  proof (rule scan_ops_skip)
    show "\<forall>k < ?m. fst (?decoded ! k) \<noteq> OP_ASSET"
      using ops(3) by (simp add: nth_append list_all_length)
  qed simp_all
  have m0: "?m \<noteq> 0" using ops(2) by simp
  have at_m: "?decoded ! ?m = (OP_ASSET, None, ?n + 1)" by simp
  have at_m1: "?decoded ! (?m + 1) = (opc, Some ?d, j)" by (simp add: nth_append)
  have "scan_ops ?script ?decoded ?m = value_branch ?decoded ?m (drop (?n + 1) ?script)"
    using m0 by (subst scan_ops.simps) (simp only: at_m, simp)
  also have "drop (?n + 1) ?script = p @ ?d @ [0x75]" by simp
  also have "value_branch ?decoded ?m (p @ ?d @ [0x75]) =
      Inr (MetadataAssetVoutInformation CREATE True asset amount divisions reissuable associated_data)"
    by (rule value_branch_create [OF ascii len amount divisions data _ _ p]) (simp_all add: nth_append)
  finally have r: "scan_ops ?script ?decoded ?m =
      Inr (MetadataAssetVoutInformation CREATE True asset amount divisions reissuable associated_data)" .
  show ?thesis
    unfolding get_asset_info_from_script_def dec sum.case skip r ..
qed

section \<open>Properties of the decoded output information\<close>


text \<open>
  Claim C10.  The sentinel \<open>NoAssetVoutInformation\<close> is well formed, deterministic,
  not transferable and not a tag.
\<close>

theorem no_asset_sentinel_invariant:
  "well_formed_script NoAssetVoutInformation = True \<and>
   is_deterministic NoAssetVoutInformation = True \<and>
   is_transferable NoAssetVoutInformation = False \<and>
   is_tag NoAssetVoutInformation = False"
  by (simp add: is_transferable_def base_is_deterministic_def)

section \<open>Claims about the codec\<close>

text \<open>
  Claim C2 fails on the code.  The script \<open>OP_1 OP_ASSET PUSH(6) "rvnt" 01 ff OP_DROP\<close>
  disassembles without the malformed condition; after the marker the decoder finds the
  prefix, the Transfer discriminator and a name of one byte \<open>0xff\<close>, which is not
  UTF-8.  \<open>decode()\<close> raises \<open>UnicodeDecodeError\<close>, and the handler of the function
  catches \<open>IndexError\<close> only.  The same script cut before the name byte runs out of
  bytes and gives the sentinel.
\<close>

theorem decoder_raises_on_garbage_name:
  "script_GetOp [0x51, 0xc0, 0x06, 0x72, 0x76, 0x6e, 0x74, 0x01, 0xff, 0x75] =
     Inr [(0x51, None, 1), (0xc0, None, 2), (6, Some [0x72, 0x76, 0x6e, 0x74, 0x01, 0xff], 9),
          (0x75, None, 10)] \<and>
   get_asset_info_from_script [0x51, 0xc0, 0x06, 0x72, 0x76, 0x6e, 0x74, 0x01, 0xff, 0x75] =
     Inl UnicodeDecodeError \<and>
   get_asset_info_from_script [0x51, 0xc0, 0x06, 0x72, 0x76, 0x6e, 0x74, 0x01] =
     Inr (Some NoAssetVoutInformation)"
  by code_simp

text \<open>
  The Create and Reissue encoders raise \<open>AssetException\<close>, and produce no bytes, for a
  name the validator rejects and for an amount, divisions or associated data out of
  bounds (Create: amount in (0, max], divisions in [0, 8]; Reissue: amount in [0, max],
  divisions in [0, 8] or 0xff; associated data, when not empty, of 34 bytes).  The Owner
  encoder raises \<open>AssetException\<close> when the name, suffixed with the owner marker if it
  lacks it, is rejected.  The Transfer encoder never raises \<open>AssetException\<close>: it returns
  the base script followed by the asset portion for every ASCII name of fewer than 256
  characters and every amount that fits 8 bytes.
\<close>

lemma encoder_validation:
  "(get_error_for_asset_name asset \<noteq> None \<or> \<not> 0 < amount \<or> DEFAULT_ASSET_AMOUNT_MAX * COIN < amount \<or>
    divisions < 0 \<or> 8 < divisions \<or> (truthy associated_data \<and> length (the associated_data) \<noteq> 34)
      \<longrightarrow> (\<exists>msg. generate_create_script ats address asset amount divisions reissuable associated_data =
                      Inl (AssetException msg))) \<and>
   (get_error_for_asset_name asset \<noteq> None \<or> \<not> 0 \<le> amount \<or> DEFAULT_ASSET_AMOUNT_MAX * COIN < amount \<or>
    ((divisions < 0 \<or> 8 < divisions) \<and> divisions \<noteq> 0xff) \<or>
    (truthy associated_data \<and> length (the associated_data) \<noteq> 34)
      \<longrightarrow> (\<exists>msg. generate_reissue_script ats address asset amount divisions reissuable associated_data =
                      Inl (AssetException msg))) \<and>
   (asset \<noteq> [] \<and>
    get_error_for_asset_name
      (if last asset \<noteq> ASSET_OWNER_IDENTIFIER then asset @ [ASSET_OWNER_IDENTIFIER] else asset) \<noteq> None
      \<longrightarrow> (\<exists>msg. generate_owner_script_from_base asset base_script = Inl (AssetException msg))) \<and>
   (\<forall>msg. generate_transfer_script_from_base asset amount base_script \<noteq> Inl (AssetException msg)) \<and>
   (length asset < 256 \<and> (\<forall>x \<in> set asset. x < 128) \<and> - (2 ^ 63) \<le> amount \<and> amount < 2 ^ 64
      \<longrightarrow> (\<exists>portion. generate_transfer_script_from_base asset amount base_script =
                          Inr (base_script @ portion)))"
proof (intro conjI impI allI)
  assume "get_error_for_asset_name asset \<noteq> None \<or> \<not> 0 < amount \<or> DEFAULT_ASSET_AMOUNT_MAX * COIN < amount \<or>
    divisions < 0 \<or> 8 < divisions \<or> (truthy associated_data \<and> length (the associated_data) \<noteq> 34)"
  then show "\<exists>msg. generate_create_script ats address asset amount divisions reissuable associated_data =
                      Inl (AssetException msg)"
    by (auto simp: generate_create_script_def truthy_get_error)
next
  assume "get_error_for_asset_name asset \<noteq> None \<or> \<not> 0 \<le> amount \<or> DEFAULT_ASSET_AMOUNT_MAX * COIN < amount \<or>
    ((divisions < 0 \<or> 8 < divisions) \<and> divisions \<noteq> 0xff) \<or>
    (truthy associated_data \<and> length (the associated_data) \<noteq> 34)"
  then show "\<exists>msg. generate_reissue_script ats address asset amount divisions reissuable associated_data =
                      Inl (AssetException msg)"
    by (auto simp: generate_reissue_script_def truthy_get_error)
next
  assume "asset \<noteq> [] \<and>
    get_error_for_asset_name
      (if last asset \<noteq> ASSET_OWNER_IDENTIFIER then asset @ [ASSET_OWNER_IDENTIFIER] else asset) \<noteq> None"
  then show "\<exists>msg. generate_owner_script_from_base asset base_script = Inl (AssetException msg)"
    by (auto simp: generate_owner_script_from_base_def truthy_get_error Let_def)
next
  fix msg
  show "generate_transfer_script_from_base asset amount base_script \<noteq> Inl (AssetException msg)"
    by (rule transfer_no_AssetException)
next
  assume "length asset < 256 \<and> (\<forall>x \<in> set asset. x < 128) \<and> - (2 ^ 63) \<le> amount \<and> amount < 2 ^ 64"
  with transfer_portion_ok [of asset amount]
  show "\<exists>portion. generate_transfer_script_from_base asset amount base_script = Inr (base_script @ portion)"
    by (auto simp: generate_transfer_script_from_base_def)
qed

text \<open>
  On the reserved name \<open>RVN\<close> the Create and Reissue encoders raise, and the Create
  encoder raises on an amount above the maximum.
\<close>

lemma create_reissue_reject:
  "generate_create_script (\<lambda>a. Inr [0x76]) [] (lit ''RVN'') COIN 0 True None =
     Inl (AssetException (lit ''Bad asset'')) \<and>
   generate_reissue_script (\<lambda>a. Inr [0x76]) [] (lit ''RVN'') COIN 0 True None =
     Inl (AssetException (lit ''Bad asset'')) \<and>
   generate_create_script (\<lambda>a. Inr [0x76]) [] (lit ''FOO'') (DEFAULT_ASSET_AMOUNT_MAX * COIN + 1) 0 True None =
     Inl (AssetException (lit ''Bad amount''))"
  by code_simp

text \<open>
  Claim C4 fails on the code for the Transfer variant.  The validator rejects the
  reserved name \<open>RVN\<close>, and the Owner encoder raises \<open>AssetException\<close> for it, as the
  Create and Reissue encoders do; \<open>generate_transfer_script_from_base\<close> checks neither
  the name nor the amount and returns script bytes for \<open>RVN\<close> and for an amount above
  the maximum.
\<close>

theorem transfer_encoder_skips_validation:
  "get_error_for_asset_name (lit ''RVN'') \<noteq> None \<and>
   (case generate_owner_script_from_base (lit ''RVN'') [0x76] of
      Inl (AssetException msg) \<Rightarrow> True | _ \<Rightarrow> False) \<and>
   generate_transfer_script_from_base (lit ''RVN'') COIN [0x76] =
     Inr [0x76, 0xc0, 16, 114, 118, 110, 116, 3, 82, 86, 78, 0x00, 0xe1, 0xf5, 0x05, 0, 0, 0, 0, 0x75] \<and>
   DEFAULT_ASSET_AMOUNT_MAX * COIN < DEFAULT_ASSET_AMOUNT_MAX * COIN + 1 \<and>
   get_error_for_asset_name (lit ''FOO'') = None \<and>
   generate_transfer_script_from_base (lit ''FOO'') (DEFAULT_ASSET_AMOUNT_MAX * COIN + 1) [0x76] =
     Inr [0x76, 0xc0, 16, 114, 118, 110, 116, 3, 70, 79, 79, 1, 0, 82, 172, 223, 178, 36, 29, 0x75]"
  by code_simp

text \<open>
  Claim C1.  For a name that \<open>get_error_for_asset_name\<close> accepts, an amount in
  \<open>(0, 21_000_000_000 * COIN]\<close>, divisions in \<open>[0, 8]\<close> and associated data that is
  absent or of 34 bytes, \<open>generate_create_script\<close> returns a script, and
  \<open>get_asset_info_from_script\<close> decodes that script to the Create result with the
  same name, amount, divisions, reissuable flag and associated data, well formed.
  The address is any address whose base script \<open>clean_base\<close> holds of: a script that
  is not empty, disassembles completely and has no asset marker among its operations.
\<close>

theorem create_round_trip:
  assumes name: "get_error_for_asset_name asset = None"
    and amount: "0 < amount" "amount \<le> DEFAULT_ASSET_AMOUNT_MAX * COIN"
    and divisions: "0 \<le> divisions" "divisions \<le> 8"
    and data: "associated_data = None \<or> length (the associated_data) = 34"
    and base: "ats address = Inr base_script" "clean_base base_script"
  shows "\<exists>script.
           generate_create_script ats address asset amount divisions reissuable associated_data = Inr script \<and>
           get_asset_info_from_script script =
             Inr (Some (MetadataAssetVoutInformation CREATE True asset amount divisions reissuable
                          associated_data)) \<and>
           well_formed_script
             (MetadataAssetVoutInformation CREATE True asset amount divisions reissuable associated_data)"
proof -
  from generate_create_script_shape [where ats = ats and address = address and reissuable = reissuable,
      OF name amount divisions data base(1)]
  obtain p where p: "op_push (length (create_payload asset amount divisions reissuable associated_data)) = Inr p"
    and g: "generate_create_script ats address asset amount divisions reissuable associated_data =
              Inr (base_script @ 0xc0 # p @ create_payload asset amount divisions reissuable associated_data @ [0x75])"
    by blast
  from valid_name_length [OF name] have len: "length asset \<le> 40" .
  from valid_name_ascii [OF name] have ascii: "\<forall>x \<in> set asset. x < 128" by blast
  from amount have a: "0 \<le> amount" "amount < 256 ^ 8"
    by (simp_all add: DEFAULT_ASSET_AMOUNT_MAX_def COIN_def)
  from decode_create_script [OF ascii len a divisions data p base(2)] g
  show ?thesis by simp
qed

theorem create_round_trip_witness:
  "get_error_for_asset_name (lit ''FOO'') = None \<and>
   0 < 100 * COIN \<and> 100 * COIN \<le> DEFAULT_ASSET_AMOUNT_MAX * COIN \<and>
   clean_base ([0x76, 0xa9, 0x14] @ replicate 20 0x11 @ [0x88, 0xac]) \<and>
   generate_create_script (\<lambda>a. Inr ([0x76, 0xa9, 0x14] @ replicate 20 0x11 @ [0x88, 0xac])) []
       (lit ''FOO'') (100 * COIN) 0 True None =
     Inr ([0x76, 0xa9, 0x14] @ replicate 20 0x11 @ [0x88, 0xac] @
          [0xc0, 19, 114, 118, 110, 113, 3, 70, 79, 79, 0x00, 0xe4, 0x0b, 0x54, 0x02, 0, 0, 0, 0, 1, 0, 0x75]) \<and>
   get_asset_info_from_script
       ([0x76, 0xa9, 0x14] @ replicate 20 0x11 @ [0x88, 0xac] @
        [0xc0, 19, 114, 118, 110, 113, 3, 70, 79, 79, 0x00, 0xe4, 0x0b, 0x54, 0x02, 0, 0, 0, 0, 1, 0, 0x75]) =
     Inr (Some (MetadataAssetVoutInformation CREATE True (lit ''FOO'') (100 * COIN) 0 True None))"
proof -
  let ?base = "[0x76, 0xa9, 0x14] @ replicate 20 0x11 @ [0x88, 0xac] :: bytes"
  let ?script = "?base @
        [0xc0, 19, 114, 118, 110, 113, 3, 70, 79, 79, 0x00, 0xe4, 0x0b, 0x54, 0x02, 0, 0, 0, 0, 1, 0, 0x75]"
  have n: "get_error_for_asset_name (lit ''FOO'') = None" by code_simp
  have a: "0 < 100 * COIN" "100 * COIN \<le> DEFAULT_ASSET_AMOUNT_MAX * COIN"
    by (simp_all add: COIN_def DEFAULT_ASSET_AMOUNT_MAX_def)
  have c: "clean_base ?base" by code_simp
  have g: "generate_create_script (\<lambda>a. Inr ?base) [] (lit ''FOO'') (100 * COIN) 0 True None = Inr ?script"
    by code_simp
  from create_round_trip [where ats = "\<lambda>a. Inr ?base" and address = "[]" and reissuable = True,
      OF n a _ _ _ refl c, of 0 None]
  obtain script where
    s: "generate_create_script (\<lambda>a. Inr ?base) [] (lit ''FOO'') (100 * COIN) 0 True None = Inr script"
       "get_asset_info_from_script script =
          Inr (Some (MetadataAssetVoutInformation CREATE True (lit ''FOO'') (100 * COIN) 0 True None))"
    by auto
  from s(1) g have "script = ?script" by simp
  with s(2) n a c g show ?thesis by simp
qed

section \<open>The status digest\<close>

lemma decimal_ascii: "list_all (\<lambda>c. c < 128) (decimal n)"
proof (induction n rule: decimal.induct)
  case (1 n)
  show ?case
  proof (cases "n < 10")
    case True
    then show ?thesis by (subst decimal.simps) auto
  next
    case False
    have "nat (n mod 10) < 10" by simp
    with False 1 show ?thesis by (subst decimal.simps) auto
  qed
qed

lemma str_int_ascii: "list_all (\<lambda>c. c < 128) (str_int i)"
  by (simp add: str_int_def decimal_ascii)

lemma str_bool_ascii: "list_all (\<lambda>c. c < 128) (str_bool b)"
  by (simp add: str_bool_def lit_def ord_def)

lemma digits_value_snoc: "digits_value (xs @ [c]) = 10 * digits_value xs + (int c - 48)"
  by (simp add: digits_value_def)

lemma digits_value_Nil: "digits_value [] = 0"
  by (simp add: digits_value_def)

lemma digits_value_single: "digits_value [c] = int c - 48"
  by (simp add: digits_value_def)

lemma digits_value_pos:
  "xs \<noteq> [] \<Longrightarrow> list_all is_digit xs \<Longrightarrow> hd xs \<noteq> 48 \<Longrightarrow> 1 \<le> digits_value xs"
proof (induction xs rule: rev_induct)
  case Nil
  then show ?case by simp
next
  case (snoc c ys)
  from snoc.prems have c: "48 \<le> c" by (simp add: is_digit_def)
  show ?case
  proof (cases "ys = []")
    case True
    with snoc.prems c have "48 < c" by simp
    with True show ?thesis by (simp add: digits_value_single)
  next
    case False
    with snoc have "1 \<le> digits_value ys" by simp
    with c show ?thesis by (simp add: digits_value_snoc)
  qed
qed

lemma digits_of_decimal: "0 \<le> n \<Longrightarrow> digits_of (decimal n) n"
proof (induction n rule: decimal.induct)
  case (1 n)
  show ?case
  proof (cases "n < 10")
    case True
    then have d: "decimal n = [48 + nat n]" by (subst decimal.simps) simp
    from True "1.prems" show ?thesis
      unfolding d by (simp add: digits_of_def is_digit_def digits_value_single)
  next
    case False
    let ?xs = "decimal (n div 10)"
    let ?c = "48 + nat (n mod 10)"
    from False have d: "decimal n = ?xs @ [?c]" by (subst decimal.simps) simp
    from False "1.prems" have "0 \<le> n div 10" by simp
    with "1.IH" False have ih: "digits_of ?xs (n div 10)" by simp
    then have ne: "?xs \<noteq> []" and dg: "list_all is_digit ?xs" and v: "digits_value ?xs = n div 10"
      and lz: "length ?xs = 1 \<or> hd ?xs \<noteq> 48"
      by (simp_all add: digits_of_def)
    have c: "is_digit ?c"
    proof -
      have "nat (n mod 10) < 10" by simp
      then show ?thesis by (simp add: is_digit_def)
    qed
    have hd: "hd ?xs \<noteq> 48"
    proof
      assume h: "hd ?xs = 48"
      with lz have "length ?xs = 1" by simp
      then obtain x where x: "?xs = [x]" by (cases ?xs) auto
      with h have "digits_value ?xs = 0"
        by (simp add: digits_value_single)
      with v False show False by simp
    qed
    have val: "digits_value (?xs @ [?c]) = n"
      using v by (simp add: digits_value_snoc)
    from ne dg c hd val show ?thesis
      unfolding d by (simp add: digits_of_def)
  qed
qed

lemma digits_of_unique: "digits_of s n \<Longrightarrow> s = decimal n"
proof (induction s arbitrary: n rule: rev_induct)
  case Nil
  then show ?case by (simp add: digits_of_def)
next
  case (snoc c xs)
  from snoc.prems have c: "48 \<le> c" "c \<le> 57" and dg: "list_all is_digit xs"
    and n: "n = 10 * digits_value xs + (int c - 48)"
    and lz: "length (xs @ [c]) = 1 \<or> hd (xs @ [c]) \<noteq> 48"
    by (simp_all add: digits_of_def is_digit_def digits_value_snoc)
  show ?case
  proof (cases "xs = []")
    case True
    with n c have "n < 10" "48 + nat n = c" by (simp_all add: digits_value_Nil)
    with True show ?thesis by (subst decimal.simps) simp
  next
    case False
    with lz have hd: "hd xs \<noteq> 48" by simp
    from digits_value_pos [OF False dg hd] have pos: "1 \<le> digits_value xs" .
    from False dg hd have "digits_of xs (digits_value xs)" by (simp add: digits_of_def)
    from snoc.IH [OF this] have xs: "xs = decimal (digits_value xs)" .
    from n c pos have big: "\<not> n < 10" by simp
    from n c have dv: "n div 10 = digits_value xs" and md: "n mod 10 = int c - 48" by simp_all
    from c md have "48 + nat (n mod 10) = c" by simp
    with big dv xs show ?thesis by (subst decimal.simps) simp
  qed
qed

lemma decimal_form_str_int: "decimal_form (str_int n) n"
  by (simp add: decimal_form_def str_int_def digits_of_decimal)

lemma decimal_form_unique: "decimal_form s n \<Longrightarrow> s = str_int n"
proof (cases "n < 0")
  case True
  assume "decimal_form s n"
  with True have s: "s \<noteq> []" "hd s = 45" "digits_of (tl s) (- n)" by (simp_all add: decimal_form_def)
  from digits_of_unique [OF s(3)] s(1,2) have "s = 45 # decimal (- n)" by (cases s) simp_all
  with True show ?thesis by (simp add: str_int_def)
next
  case False
  assume "decimal_form s n"
  with False have "digits_of s n" by (simp add: decimal_form_def)
  from digits_of_unique [OF this] False show ?thesis by (simp add: str_int_def)
qed

lemma status_value:
  assumes "metadata_associated_data m \<noteq> Some []"
    and "list_all (\<lambda>c. c < 128)
           (case metadata_associated_data m of None \<Rightarrow> [] | Some d \<Rightarrow> base_encode d 58)"
  shows "status sha256 base_encode m =
           Inr (status_spec sha256 base_encode
                  (str_int (sats_in_circulation m)) (str_int (metadata_divisions m))
                  (if metadata_reissuable m then lit ''True'' else lit ''False'')
                  (if metadata_associated_data m \<noteq> None then lit ''True'' else lit ''False'')
                  (metadata_associated_data m))"
proof (cases "metadata_associated_data m")
  case None
  then show ?thesis
    using str_bool_ascii [of "metadata_reissuable m"] str_bool_ascii [of False]
    by (simp add: status_def status_spec_def encode_ascii_def str_int_ascii str_bool_def
        associated_data_as_ipfs_def Let_def bind_exc_def)
next
  case (Some d)
  with assms have "d \<noteq> []" "list_all (\<lambda>c. c < 128) (base_encode d 58)" by simp_all
  with Some show ?thesis
    using str_bool_ascii [of "metadata_reissuable m"] str_bool_ascii [of True]
    by (simp add: status_def status_spec_def encode_ascii_def str_int_ascii str_bool_def
        associated_data_as_ipfs_def truthy_def Let_def bind_exc_def)
qed

text \<open>
  Claim C9, as stated, fails: \<open>status()\<close> does not hash the decimal string forms of
  \<open>reissuable\<close> and of the has-associated-data indicator.  For the record with
  2100000000 in circulation, 8 divisions, reissuable, no associated data, the bytes that
  \<open>status()\<close> hashes are \<open>21000000008TrueFalse\<close>, whatever the hash function; the decimal
  string forms of the four values give \<open>2100000000810\<close>.
\<close>

theorem status_boolean_form_counterexample:
  "decimal_form (lit ''2100000000'') 2100000000 \<and> decimal_form (lit ''8'') 8 \<and>
   decimal_form (lit ''1'') (bool_int True) \<and> decimal_form (lit ''0'') (bool_int False) \<and>
   (\<forall>sha256 base_encode.
      status sha256 base_encode
        \<lparr>sats_in_circulation = 2100000000, metadata_divisions = 8, metadata_reissuable = True,
         metadata_associated_data = None\<rparr> =
      Inr (bytes_hex (sha256 (map of_nat (lit ''21000000008TrueFalse''))))) \<and>
   (\<forall>sha256 base_encode.
      status_spec sha256 base_encode (lit ''2100000000'') (lit ''8'') (lit ''1'') (lit ''0'') None =
      bytes_hex (sha256 (map of_nat (lit ''2100000000810'')))) \<and>
   (map of_nat (lit ''21000000008TrueFalse'') :: bytes) \<noteq> map of_nat (lit ''2100000000810'') \<and>
   status (\<lambda>b. b) (\<lambda>d base. [])
     \<lparr>sats_in_circulation = 2100000000, metadata_divisions = 8, metadata_reissuable = True,
      metadata_associated_data = None\<rparr> \<noteq>
   Inr (status_spec (\<lambda>b. b) (\<lambda>d base. []) (lit ''2100000000'') (lit ''8'') (lit ''1'') (lit ''0'') None)"
proof -
  let ?m = "\<lparr>sats_in_circulation = 2100000000, metadata_divisions = 8, metadata_reissuable = True,
         metadata_associated_data = None\<rparr>"
  have d1: "decimal_form (lit ''2100000000'') 2100000000" by code_simp
  have d2: "decimal_form (lit ''8'') 8" by code_simp
  have d3: "decimal_form (lit ''1'') (bool_int True)" by code_simp
  have d4: "decimal_form (lit ''0'') (bool_int False)" by code_simp
  have s1: "str_int 2100000000 = lit ''2100000000''" by code_simp
  have s2: "str_int 8 = lit ''8''" by code_simp
  have cat: "lit ''2100000000'' @ lit ''8'' @ lit ''True'' @ lit ''False'' = lit ''21000000008TrueFalse''"
    by (simp add: lit_def)
  have asc: "list_all (\<lambda>c. c < 128) (lit ''21000000008TrueFalse'')"
    by (simp add: lit_def ord_def)
  have a: "status sha256 base_encode ?m =
             Inr (bytes_hex (sha256 (map of_nat (lit ''21000000008TrueFalse''))))"
    for sha256 :: "bytes \<Rightarrow> bytes" and base_encode :: "bytes \<Rightarrow> nat \<Rightarrow> str"
    using asc
    by (simp add: status_def Let_def s1 s2 str_bool_def bind_exc_def encode_ascii_def
        cat [simplified append_assoc [symmetric]] cat del: append_assoc map_append)
  have b: "status_spec sha256 base_encode (lit ''2100000000'') (lit ''8'') (lit ''1'') (lit ''0'') None =
             bytes_hex (sha256 (map of_nat (lit ''2100000000810'')))"
    for sha256 :: "bytes \<Rightarrow> bytes" and base_encode :: "bytes \<Rightarrow> nat \<Rightarrow> str"
    by (simp add: status_spec_def lit_def)
  have c: "(map of_nat (lit ''21000000008TrueFalse'') :: bytes) \<noteq> map of_nat (lit ''2100000000810'')"
    by (simp add: lit_def)
  have e: "status (\<lambda>b. b) (\<lambda>d base. []) ?m \<noteq>
      Inr (status_spec (\<lambda>b. b) (\<lambda>d base. []) (lit ''2100000000'') (lit ''8'') (lit ''1'') (lit ''0'') None)"
    by code_simp
  from d1 d2 d3 d4 a b c e show ?thesis by blast
qed

text \<open>
  Claim C9, amended.  For every \<open>AssetMetadata\<close> record (its associated data absent or
  not empty, as the converter leaves it, and the base-58 text of the data made of ASCII
  characters), \<open>status()\<close> returns the hexadecimal SHA-256 digest of the ASCII bytes of
  the concatenation of the decimal string forms of \<open>sats_in_circulation\<close> and
  \<open>divisions\<close>, the word \<open>True\<close> or \<open>False\<close> for \<open>reissuable\<close>, the word \<open>True\<close> or
  \<open>False\<close> for the has-associated-data indicator, and the base-58 text of the
  associated data when present.  Both integers have a decimal string form, and two
  records with the same four fields have the same status.
\<close>

theorem status_is_digest:
  assumes "metadata_associated_data m \<noteq> Some []"
    and "list_all (\<lambda>c. c < 128)
           (case metadata_associated_data m of None \<Rightarrow> [] | Some d \<Rightarrow> base_encode d 58)"
  shows "(\<exists>sats divs. decimal_form sats (sats_in_circulation m) \<and>
                       decimal_form divs (metadata_divisions m)) \<and>
         (\<forall>sats divs.
            decimal_form sats (sats_in_circulation m) \<and> decimal_form divs (metadata_divisions m) \<longrightarrow>
            status sha256 base_encode m =
              Inr (status_spec sha256 base_encode sats divs
                     (if metadata_reissuable m then lit ''True'' else lit ''False'')
                     (if metadata_associated_data m \<noteq> None then lit ''True'' else lit ''False'')
                     (metadata_associated_data m))) \<and>
         (\<forall>m'. sats_in_circulation m' = sats_in_circulation m \<and>
                metadata_divisions m' = metadata_divisions m \<and>
                metadata_reissuable m' = metadata_reissuable m \<and>
                metadata_associated_data m' = metadata_associated_data m \<longrightarrow>
                status sha256 base_encode m' = status sha256 base_encode m)"
proof (intro conjI allI impI)
  show "\<exists>sats divs. decimal_form sats (sats_in_circulation m) \<and> decimal_form divs (metadata_divisions m)"
    using decimal_form_str_int by blast
next
  fix sats divs
  assume "decimal_form sats (sats_in_circulation m) \<and> decimal_form divs (metadata_divisions m)"
  then have "sats = str_int (sats_in_circulation m)" "divs = str_int (metadata_divisions m)"
    by (simp_all add: decimal_form_unique)
  with status_value [of m base_encode sha256, OF assms]
  show "status sha256 base_encode m =
          Inr (status_spec sha256 base_encode sats divs
                 (if metadata_reissuable m then lit ''True'' else lit ''False'')
                 (if metadata_associated_data m \<noteq> None then lit ''True'' else lit ''False'')
                 (metadata_associated_data m))"
    by simp
next
  fix m' :: "'b AssetMetadata_scheme"
  assume "sats_in_circulation m' = sats_in_circulation m \<and>
          metadata_divisions m' = metadata_divisions m \<and>
          metadata_reissuable m' = metadata_reissuable m \<and>
          metadata_associated_data m' = metadata_associated_data m"
  then have eq: "sats_in_circulation m' = sats_in_circulation m"
    "metadata_divisions m' = metadata_divisions m"
    "metadata_reissuable m' = metadata_reissuable m"
    "metadata_associated_data m' = metadata_associated_data m"
    by simp_all
  have ipfs: "associated_data_as_ipfs base_encode m' = associated_data_as_ipfs base_encode m"
    by (simp add: associated_data_as_ipfs_def eq)
  show "status sha256 base_encode m' = status sha256 base_encode m"
    unfolding status_def eq ipfs by (rule refl)
qed

theorem status_is_digest_witness:
  "metadata_associated_data
     \<lparr>sats_in_circulation = 2100000000, metadata_divisions = 8, metadata_reissuable = True,
      metadata_associated_data = Some (0x12 # 0x20 # replicate 32 0xab)\<rparr> \<noteq> Some [] \<and>
   list_all (\<lambda>c. c < 128) (map (\<lambda>b. 49 + unat b mod 58) (0x12 # 0x20 # replicate 32 (0xab :: byte))) \<and>
   decimal_form (lit ''2100000000'') 2100000000 \<and> decimal_form (lit ''8'') 8 \<and>
   status (\<lambda>b. b) (\<lambda>d base. map (\<lambda>b. 49 + unat b mod base) d)
     \<lparr>sats_in_circulation = 2100000000, metadata_divisions = 8, metadata_reissuable = True,
      metadata_associated_data = Some (0x12 # 0x20 # replicate 32 0xab)\<rparr> =
   Inr (bytes_hex (map of_nat (lit ''21000000008TrueTrue'' @ 67 # 81 # replicate 32 104)))"
proof -
  let ?m = "\<lparr>sats_in_circulation = 2100000000, metadata_divisions = 8, metadata_reissuable = True,
      metadata_associated_data = Some (0x12 # 0x20 # replicate 32 (0xab :: byte))\<rparr>"
  let ?enc = "\<lambda>(d :: bytes) base. map (\<lambda>b. 49 + unat b mod base) d"
  have h1: "metadata_associated_data ?m \<noteq> Some []" by simp
  have h2: "list_all (\<lambda>c. c < 128)
              (case metadata_associated_data ?m of None \<Rightarrow> [] | Some d \<Rightarrow> ?enc d 58)"
    by code_simp
  have h3: "list_all (\<lambda>c. c < 128) (map (\<lambda>b. 49 + unat b mod 58) (0x12 # 0x20 # replicate 32 (0xab :: byte)))"
    by code_simp
  have d1: "decimal_form (lit ''2100000000'') (sats_in_circulation ?m)" by code_simp
  have d2: "decimal_form (lit ''8'') (metadata_divisions ?m)" by code_simp
  have d1': "decimal_form (lit ''2100000000'') 2100000000" by code_simp
  have d2': "decimal_form (lit ''8'') 8" by code_simp
  have d: "status_spec (\<lambda>b. b) ?enc (lit ''2100000000'') (lit ''8'')
             (if metadata_reissuable ?m then lit ''True'' else lit ''False'')
             (if metadata_associated_data ?m \<noteq> None then lit ''True'' else lit ''False'')
             (metadata_associated_data ?m) =
           bytes_hex (map of_nat (lit ''21000000008TrueTrue'' @ 67 # 81 # replicate 32 104))"
    by code_simp
  have "status (\<lambda>b. b) ?enc ?m =
          Inr (status_spec (\<lambda>b. b) ?enc (lit ''2100000000'') (lit ''8'')
             (if metadata_reissuable ?m then lit ''True'' else lit ''False'')
             (if metadata_associated_data ?m \<noteq> None then lit ''True'' else lit ''False'')
             (metadata_associated_data ?m))"
    using status_is_digest [of ?m ?enc "\<lambda>b. b", OF h1 h2] d1 d2 by blast
  then have "status (\<lambda>b. b) ?enc ?m =
          Inr (bytes_hex (map of_nat (lit ''21000000008TrueTrue'' @ 67 # 81 # replicate 32 104)))"
    by (simp only: d)
  with h1 h3 d1' d2' show ?thesis by blast
qed

end
